theory Spec2Isabelle
  imports Main "HOL-Library.Word" "HOL-Library.Stream" "HOL-Library.Sublist"
begin

section \<open>The filesystem layer of osquery (osquery/filesystem/filesystem.cpp)\<close>

text \<open>
  A shallow embedding of \<^verbatim>\<open>readFile\<close>, \<^verbatim>\<open>genGlobs\<close>, \<^verbatim>\<open>replaceGlobWildcards\<close>,
  \<^verbatim>\<open>isDirectory\<close> and \<^verbatim>\<open>safePermissions\<close>. The functions are translated statement by
  statement; what they call outside the file (the platform file of \<^verbatim>\<open>fileops.h\<close>, the
  privilege dropper, \<^verbatim>\<open>platformGlob\<close>, Boost.Filesystem's queries of the real filesystem)
  is a parameter of the model, collected in the records \<open>PlatformFile\<close> and \<open>platform\<close>.
  The POSIX build is modelled (\<^verbatim>\<open>#ifndef WIN32\<close>): the preferred separator is \<open>/\<close>.
\<close>

subsection \<open>Status, flags and the platform\<close>

text \<open>
  Modelled from the spec: \<^verbatim>\<open>Status\<close> is declared in \<^verbatim>\<open>osquery/status.h\<close>, which is not
  among the sources; section 7 of the spec makes it a result that carries a kind and a
  detail. \<^verbatim>\<open>Status(code, message)\<close> is built and read as the file does: \<^verbatim>\<open>ok()\<close> is
  \<^verbatim>\<open>getCode() == 0\<close>, and a \<^verbatim>\<open>Status\<close> used as a condition
  (\<^verbatim>\<open>if (isDirectory(canonicalized))\<close>) converts through \<^verbatim>\<open>ok()\<close>.
\<close>

datatype Status = Status (getCode: int) (getMessage: string)

definition ok :: "Status \<Rightarrow> bool" where
  "ok s = (getCode s = 0)"

text \<open>
  The command line flags of the file, lines 41 to 48. \<^verbatim>\<open>read_max\<close> and
  \<^verbatim>\<open>read_user_max\<close> are \<^verbatim>\<open>uint64\<close> flags.
\<close>

record FLAGS =
  FLAGS_read_max :: "64 word"
  FLAGS_read_user_max :: "64 word"
  FLAGS_allow_unsafe :: bool
  FLAGS_disable_forensic :: bool

text \<open>\<^verbatim>\<open>PlatformTime\<close>: the access and the modification time of a file.\<close>

record PlatformTime =
  atime :: int
  mtime :: int

text \<open>
  What one call of \<^verbatim>\<open>PlatformFile::read(buf, nbyte)\<close> finds: an error (the call returns
  \<open>-1\<close>, as a non-blocking descriptor with nothing to read does) or the bytes the source
  has ready (none of them at the end of the file: the call returns \<open>0\<close>).
\<close>

datatype read_event = Fail | Avail string

text \<open>
  Modelled from the spec: \<^verbatim>\<open>PlatformFile\<close> is declared in
  \<^verbatim>\<open>osquery/filesystem/fileops.h\<close>, which is not among the sources. The record holds the
  answers of an opened handle to the queries the file makes (section 6 of the spec: size
  query, special-file detection, owning-identity query, timestamp get/set,
  executable/writable-by-others queries, byte-range read). \<open>pending\<close> is what the
  successive \<^verbatim>\<open>read\<close> calls will find, an infinite stream so that a source that never
  ends (a device) is a handle too; \<open>touch\<close> is what one \<^verbatim>\<open>read\<close> call does to the
  timestamps of the file (the identity on a filesystem that does not record access times).
\<close>

record PlatformFile =
  isValid :: bool
  fd_size :: "64 word"
  isSpecialFile :: bool
  isOwnerRoot :: Status
  isOwnerCurrentUser :: Status
  isExecutable :: Status
  isNonWritable :: Status
  fd_times :: PlatformTime
  touch :: "PlatformTime \<Rightarrow> PlatformTime"
  pending :: "read_event stream"

text \<open>\<^verbatim>\<open>boost::system::error_code\<close>: \<^verbatim>\<open>value()\<close> and \<^verbatim>\<open>message()\<close>; \<^verbatim>\<open>errc::success\<close> is 0.\<close>

record error_code =
  ec_value :: int
  ec_message :: string

text \<open>
  The world outside the file, one field for each external function it calls:
  \<^verbatim>\<open>fs::current_path(ec)\<close> and \<^verbatim>\<open>fs::canonical(p, ec)\<close> as strings (the empty path when they
  fail), \<^verbatim>\<open>fs::is_directory(p, ec)\<close> with the error code it sets, \<^verbatim>\<open>platformGlob\<close>,
  \<^verbatim>\<open>platformIsFileAccessible\<close>, \<^verbatim>\<open>platformIsTmpDir\<close>, \<^verbatim>\<open>DropPrivileges::dropToParent\<close> and
  the constructor of \<^verbatim>\<open>PlatformFile\<close> (the path, and whether \<^verbatim>\<open>PF_NONBLOCK\<close> is in the
  mode). \<open>string_max_size\<close> is the constant of the C++ library the file is built with:
  the largest \<open>n\<close> for which \<^verbatim>\<open>std::string(n, '\0')\<close> is built (\<^verbatim>\<open>max_size()\<close>, which is
  \<open>2 ^ 62 - 1\<close> in libstdc++ on a 64-bit system). It is far above the 4096 bytes of the
  buffer of line 148 in every implementation, so only the construction of line 160, whose
  size comes from the file, is guarded by it.
\<close>

record platform =
  current_path :: string
  canonical :: "string \<Rightarrow> string"
  is_directory :: "string \<Rightarrow> bool \<times> error_code"
  platformGlob :: "string \<Rightarrow> string list"
  platformIsFileAccessible :: "string \<Rightarrow> Status"
  platformIsTmpDir :: "string \<Rightarrow> Status"
  dropToParent :: "string \<Rightarrow> bool"
  openPlatformFile :: "string \<Rightarrow> bool \<Rightarrow> PlatformFile"
  string_max_size :: nat

subsection \<open>isDirectory (lines 376 to 389)\<close>

definition isDirectory :: "platform \<Rightarrow> string \<Rightarrow> Status" where
  "isDirectory env path =
     (case is_directory env path of
        (is_dir, ec) \<Rightarrow>
          if is_dir then Status 0 ''OK''
          else if ec_value ec = 0 then Status 1 (''Path is not a directory: '' @ path)
          else Status (ec_value ec) (ec_message ec))"

subsection \<open>safePermissions (lines 404 to 454)\<close>

definition safePermissions :: "FLAGS \<Rightarrow> platform \<Rightarrow> string \<Rightarrow> string \<Rightarrow> bool \<Rightarrow> bool" where
  "safePermissions flags env dir path executable =
     (if \<not> ok (platformIsFileAccessible env path) then False
      else if FLAGS_allow_unsafe flags then True
      else
        let result = platformIsTmpDir env dir in
        if \<not> ok result \<and> getCode result < 0 then False
        else if ok result then False
        else
          let fd = openPlatformFile env path False in
          if \<not> isValid fd then False
          else
            let result = isDirectory env path in
            if \<not> ok result \<and> getCode result < 0 then False
            else if ok result then False
            else if ok (isOwnerCurrentUser fd) \<or> ok (isOwnerRoot fd) then
              (let result = isExecutable fd in
               if executable \<and> (getCode result > 0 \<or> \<not> ok (isNonWritable fd)) then False
               else True)
            else False)"

subsection \<open>Strings and paths\<close>

text \<open>
  What can go wrong below the level of \<^verbatim>\<open>Status\<close>: an index past the end of a
  \<^verbatim>\<open>std::string\<close>, a read of more bytes than the buffer holds, a \<^verbatim>\<open>std::string\<close> longer
  than the implementation builds (the constructor throws \<^verbatim>\<open>std::length_error\<close> beyond
  \<^verbatim>\<open>max_size()\<close>, or \<^verbatim>\<open>std::bad_alloc\<close>), and the overflow of a signed \<^verbatim>\<open>off_t\<close> sum.
\<close>

datatype fault = OutOfRange | BufferOverrun | LengthError | SignedOverflow

text \<open>
  \<^verbatim>\<open>size_t\<close> is 64 bits wide: a difference wraps around, and \<^verbatim>\<open>std::string::npos\<close> is
  the largest value.
\<close>

definition size_t_sub :: "nat \<Rightarrow> nat \<Rightarrow> nat" where
  "size_t_sub a b = (a + 2 ^ 64 - b) mod 2 ^ 64"

definition npos :: nat where
  "npos = 2 ^ 64 - 1"

text \<open>
  \<^verbatim>\<open>s[pos]\<close>: the character at \<open>pos\<close>, the terminating NUL at \<open>pos = s.size()\<close>, and
  undefined behaviour beyond. \<open>char_at\<close> is the read where the index is known to be at
  most the size, \<open>string_index\<close> the read with the range made explicit.
\<close>

definition char_at :: "string \<Rightarrow> nat \<Rightarrow> char" where
  "char_at s pos = (if pos < length s then s ! pos else CHR 0x00)"

definition string_index :: "string \<Rightarrow> nat \<Rightarrow> fault + char" where
  "string_index s pos = (if pos \<le> length s then Inr (char_at s pos) else Inl OutOfRange)"

text \<open>\<^verbatim>\<open>s.rfind(pat)\<close>: the last position where \<open>pat\<close> starts in \<open>s\<close>, or \<open>npos\<close>.\<close>

definition rfind :: "string \<Rightarrow> string \<Rightarrow> nat" where
  "rfind s pat =
     (case filter (\<lambda>i. take (length pat) (drop i s) = pat) [0..<length s + 1 - length pat] of
        [] \<Rightarrow> npos
      | i # is \<Rightarrow> last (i # is))"

text \<open>\<^verbatim>\<open>boost::replace_all(s, a, b)\<close> for one-character strings \<open>a\<close> and \<open>b\<close>.\<close>

definition replace_all :: "string \<Rightarrow> char \<Rightarrow> char \<Rightarrow> string" where
  "replace_all s a b = map (\<lambda>c. if c = a then b else c) s"

text \<open>
  \<^verbatim>\<open>fs::path::operator/\<close> of Boost.Filesystem 3 on POSIX: an empty right operand changes
  nothing; else a separator is added unless the right operand starts with one or the
  left operand is empty or ends with one. \<^verbatim>\<open>make_preferred()\<close> replaces separators by
  the preferred one and is the identity on POSIX.
\<close>

definition path_append :: "string \<Rightarrow> string \<Rightarrow> string" where
  "path_append lhs p =
     (if p = [] then lhs
      else if hd p \<noteq> CHR ''/'' \<and> lhs \<noteq> [] \<and> last lhs \<noteq> CHR ''/'' then lhs @ ''/'' @ p
      else lhs @ p)"

definition make_preferred :: "string \<Rightarrow> string" where
  "make_preferred p = p"

subsection \<open>replaceGlobWildcards (lines 308 to 345)\<close>

text \<open>
  Modelled from the spec: \<^verbatim>\<open>GlobLimits\<close> is declared in \<^verbatim>\<open>osquery/filesystem.h\<close>, which
  is not among the sources. The spec (section 3) makes it a set of independent flags; a
  test \<^verbatim>\<open>limits & GLOB_FOLDERS\<close> reads the field of that name.
\<close>

record GlobLimits =
  GLOB_FILES :: bool
  GLOB_FOLDERS :: bool
  GLOB_NO_CANON :: bool

definition GLOB_ALL :: GlobLimits where
  "GLOB_ALL = \<lparr>GLOB_FILES = True, GLOB_FOLDERS = True, GLOB_NO_CANON = False\<rparr>"

text \<open>
  The condition of lines 315 to 318. \<^verbatim>\<open>pattern[0]\<close> is read on the empty pattern too
  (the NUL); \<^verbatim>\<open>pattern[1]\<close> and \<^verbatim>\<open>pattern[2]\<close> only behind \<^verbatim>\<open>pattern.size() > 3\<close>.
\<close>

definition relative_pattern :: "string \<Rightarrow> bool" where
  "relative_pattern pattern =
     ((length pattern = 0 \<or>
       ((char_at pattern 0 \<noteq> CHR ''/'' \<and> char_at pattern 0 \<noteq> CHR 0x5C) \<and>
        (length pattern > 3 \<and> char_at pattern 1 \<noteq> CHR '':'' \<and>
         char_at pattern 2 \<noteq> CHR 0x5C \<and> char_at pattern 2 \<noteq> CHR ''/''))) \<and>
      char_at pattern 0 \<noteq> CHR ''~'')"

text \<open>\<^verbatim>\<open>pattern.substr(0, pattern.find('*'))\<close>, made preferred (line 323).\<close>

definition pattern_base :: "string \<Rightarrow> string" where
  "pattern_base pattern = make_preferred (takeWhile (\<lambda>c. c \<noteq> CHR ''*'') pattern)"

definition replaceGlobWildcards :: "platform \<Rightarrow> string \<Rightarrow> GlobLimits \<Rightarrow> string" where
  "replaceGlobWildcards env pattern0 limits =
     (let pattern1 = (if CHR ''%'' \<in> set pattern0 then replace_all pattern0 CHR ''%'' CHR ''*''
                      else pattern0);
          pattern = (if relative_pattern pattern1
                     then make_preferred (path_append (current_path env) pattern1)
                     else pattern1);
          base = pattern_base pattern
      in if length base > 0 then
           (let canonicalized = (if \<not> GLOB_NO_CANON limits then make_preferred (canonical env base)
                                 else base)
            in if length canonicalized > 0 \<and> canonicalized \<noteq> base then
                 make_preferred
                   ((if ok (isDirectory env canonicalized) then canonicalized @ ''/''
                     else canonicalized) @ drop (length base) pattern)
               else pattern)
         else pattern)"

subsection \<open>genGlobs and resolveFilePattern (lines 248 to 296)\<close>

definition kMaxRecursiveGlobs :: nat where
  "kMaxRecursiveGlobs = 64"

text \<open>
  The loop of lines 255 to 271, entered with the value \<open>glob_index\<close> has before the
  increment of the loop condition. Besides the results it returns the patterns it gave
  to \<^verbatim>\<open>platformGlob\<close>, one for each iteration, in order.
\<close>

function genGlobs_loop ::
  "platform \<Rightarrow> nat \<Rightarrow> string \<Rightarrow> string list \<Rightarrow> string list \<Rightarrow> string list \<times> string list" where
  "genGlobs_loop env glob_index path results expanded =
     (if glob_index + 1 < kMaxRecursiveGlobs then
        (if length (platformGlob env path) = 0 \<or> rfind path ''**'' > length path \<or>
            rfind path ''**'' < size_t_sub (length path) 3
         then (results @ platformGlob env path, expanded @ [path])
         else genGlobs_loop env (glob_index + 1) (path @ ''/**'')
                (results @ platformGlob env path) (expanded @ [path]))
      else (results, expanded))"
  by pat_completeness auto
termination
  by (relation "measure (\<lambda>(env, glob_index, path, results, expanded).
        kMaxRecursiveGlobs - glob_index)") auto

declare genGlobs_loop.simps [simp del]

text \<open>
  The predicate of \<^verbatim>\<open>std::remove_if\<close> at lines 275 to 282: true when \<open>found\<close> is dropped.
  Every disjunct starts by reading \<^verbatim>\<open>found[found.length() - 1]\<close>, a \<^verbatim>\<open>size_t\<close> index.
\<close>

definition pruned :: "GlobLimits \<Rightarrow> string \<Rightarrow> fault + bool" where
  "pruned limits found =
     (case string_index found (size_t_sub (length found) 1) of
        Inl f \<Rightarrow> Inl f
      | Inr c \<Rightarrow>
          Inr (\<not> (((c = CHR ''/'' \<or> c = CHR 0x5C) \<and> GLOB_FOLDERS limits) \<or>
                  ((c \<noteq> CHR ''/'' \<and> c \<noteq> CHR 0x5C) \<and> GLOB_FILES limits))))"

text \<open>\<^verbatim>\<open>std::remove_if\<close> followed by \<^verbatim>\<open>erase\<close>; the predicate is called from left to right.\<close>

fun remove_if :: "('a \<Rightarrow> fault + bool) \<Rightarrow> 'a list \<Rightarrow> fault + 'a list" where
  "remove_if pred [] = Inr []"
| "remove_if pred (x # xs) =
     (case pred x of
        Inl f \<Rightarrow> Inl f
      | Inr drop_it \<Rightarrow>
          (case remove_if pred xs of
             Inl f \<Rightarrow> Inl f
           | Inr ys \<Rightarrow> Inr (if drop_it then ys else x # ys)))"

text \<open>
  \<open>results\<close> is the vector the caller passes by reference: the matches are appended to
  what it holds, and the filter runs over all of it.
\<close>

definition genGlobs :: "platform \<Rightarrow> string \<Rightarrow> string list \<Rightarrow> GlobLimits \<Rightarrow> fault + string list" where
  "genGlobs env path results limits =
     remove_if (pruned limits)
       (fst (genGlobs_loop env 0 (replaceGlobWildcards env path limits) results []))"

definition resolveFilePattern ::
  "platform \<Rightarrow> string \<Rightarrow> string list \<Rightarrow> GlobLimits \<Rightarrow> fault + Status \<times> string list" where
  "resolveFilePattern env fs_path results setting =
     (case genGlobs env fs_path results setting of
        Inl f \<Rightarrow> Inl f
      | Inr results' \<Rightarrow> Inr (Status 0 ''OK'', results'))"

subsection \<open>readFile (lines 107 to 191)\<close>

text \<open>
  Modelled from the spec: \<^verbatim>\<open>PlatformFile::read(buf, nbyte)\<close> is defined with the platform
  file, which is not among the sources; it is the byte-range read of section 6 of the spec,
  with the return value of \<^verbatim>\<open>read(2)\<close> that the loop of \<open>readFile\<close> tests. The result is the
  value returned, the bytes written at the start of \<open>buf\<close>, and the handle afterwards. At
  most \<open>nbyte\<close> bytes are taken from what the source has ready; the rest stays for the next
  call.
\<close>

definition platform_read :: "PlatformFile \<Rightarrow> nat \<Rightarrow> int \<times> string \<times> PlatformFile" where
  "platform_read fd nbyte =
     (let fd' = fd\<lparr>fd_times := touch fd (fd_times fd)\<rparr> in
      case shd (pending fd) of
        Fail \<Rightarrow> (- 1, [], fd'\<lparr>pending := stl (pending fd)\<rparr>)
      | Avail bytes \<Rightarrow>
          if length bytes \<le> nbyte
          then (int (length bytes), bytes, fd'\<lparr>pending := stl (pending fd)\<rparr>)
          else (int nbyte, take nbyte bytes,
                fd'\<lparr>pending := Avail (drop nbyte bytes) ## stl (pending fd)\<rparr>))"

text \<open>
  The \<^verbatim>\<open>struct OpenReadableFile\<close> of lines 78 to 105: no handle when the privilege drop
  is refused, else the handle \<^verbatim>\<open>PlatformFile\<close> opens, non-blocking unless \<open>blocking\<close>.
\<close>

definition OpenReadableFile :: "platform \<Rightarrow> string \<Rightarrow> bool \<Rightarrow> PlatformFile option" where
  "OpenReadableFile env path blocking =
     (if dropToParent env path then Some (openPlatformFile env path (\<not> blocking)) else None)"

text \<open>
  \<^verbatim>\<open>off_t\<close> is a signed 64-bit integer: \<^verbatim>\<open>static_cast<off_t>\<close> of a \<^verbatim>\<open>size_t\<close> or \<^verbatim>\<open>uint64\<close>
  value reads the same 64 bits as two's complement. \<open>determined_size\<close> is the variable
  \<^verbatim>\<open>file_size\<close> of lines 119 to 122, \<open>read_limit\<close> the variable \<^verbatim>\<open>read_max\<close> of lines
  125 to 128 (\<^verbatim>\<open>std::min\<close> compares the two unsigned flags).
\<close>

definition off_t_max :: int where
  "off_t_max = 2 ^ 63 - 1"

definition determined_size :: "PlatformFile \<Rightarrow> 64 word \<Rightarrow> int" where
  "determined_size fd size_arg =
     (if isSpecialFile fd \<and> size_arg > 0 then sint size_arg else sint (fd_size fd))"

definition read_limit :: "FLAGS \<Rightarrow> PlatformFile \<Rightarrow> int" where
  "read_limit flags fd =
     sint (if ok (isOwnerRoot fd) then FLAGS_read_max flags
           else min (FLAGS_read_max flags) (FLAGS_read_user_max flags))"

text \<open>
  A buffer \<^verbatim>\<open>std::string(n, '\0')\<close> after a read has written \<open>bytes\<close> at its start.
\<close>

definition filled :: "nat \<Rightarrow> string \<Rightarrow> string" where
  "filled n bytes = bytes @ replicate (n - length bytes) (CHR 0x00)"

text \<open>
  The \<^verbatim>\<open>do ... while\<close> loop of lines 147 to 158. The result is whether the loop left the
  function with \<^verbatim>\<open>Status(1, "File exceeds read limits")\<close>, the handle and the state of
  the sink. The buffer \<open>part\<close> has 4096 bytes whatever \<open>block_size\<close> is: a read that
  returns more has written past its end. The sum \<open>total_bytes\<close> is exact; where it would
  leave the range of \<^verbatim>\<open>off_t\<close> the behaviour is undefined.
\<close>

function read_loop ::
  "nat \<Rightarrow> int \<Rightarrow> (string \<Rightarrow> nat \<Rightarrow> 's \<Rightarrow> 's) \<Rightarrow> int \<Rightarrow> PlatformFile \<Rightarrow> 's \<Rightarrow>
   fault + bool \<times> PlatformFile \<times> 's" where
  "read_loop block_size read_max predicate total_bytes fd sink =
     (case platform_read fd block_size of
        (part_bytes, bytes, fd') \<Rightarrow>
          if part_bytes > 0 then
            if part_bytes > 4096 then Inl BufferOverrun
            else if total_bytes + part_bytes > off_t_max then Inl SignedOverflow
            else if total_bytes + part_bytes \<ge> read_max then Inr (True, fd', sink)
            else read_loop block_size read_max predicate (total_bytes + part_bytes) fd'
                   (predicate (filled 4096 bytes) (nat part_bytes) sink)
          else Inr (False, fd', sink))"
  by pat_completeness auto
termination
  by (relation "measure (\<lambda>(block_size, read_max, predicate, total_bytes, fd, sink).
        nat (read_max - total_bytes))") auto

declare read_loop.simps [simp del]

text \<open>
  The seven-argument \<^verbatim>\<open>readFile\<close> of lines 107 to 170. \<open>predicate\<close> is the sink; \<open>sink\<close> is
  the state it works on (the captured \<open>content\<close> of the wrapper below). The result is the
  \<^verbatim>\<open>Status\<close>, the state of the sink and the handle, whose fields stand for the file
  after the call. Line 160 builds \<^verbatim>\<open>std::string(file_size, '\0')\<close>: the constructor throws
  when the size is beyond what the implementation builds, as the \<^verbatim>\<open>size_t\<close> of every negative
  \<open>file_size\<close> is (\<open>2 ^ 63\<close> at least).
\<close>

definition readFile ::
  "FLAGS \<Rightarrow> platform \<Rightarrow> string \<Rightarrow> 64 word \<Rightarrow> 64 word \<Rightarrow> bool \<Rightarrow> bool \<Rightarrow>
   (string \<Rightarrow> nat \<Rightarrow> 's \<Rightarrow> 's) \<Rightarrow> bool \<Rightarrow> 's \<Rightarrow> fault + Status \<times> 's \<times> PlatformFile option" where
  "readFile flags env path size_arg block_size dry_run preserve_time predicate blocking sink =
     (case OpenReadableFile env path blocking of
        None \<Rightarrow> Inr (Status 1 (''Cannot open file for reading: '' @ path), sink, None)
      | Some fd \<Rightarrow>
          if \<not> isValid fd
          then Inr (Status 1 (''Cannot open file for reading: '' @ path), sink, Some fd)
          else
            let file_size = determined_size fd size_arg;
                read_max = read_limit flags fd
            in
            if file_size > read_max then Inr (Status 1 ''File exceeds read limits'', sink, Some fd)
            else if dry_run then Inr (Status 0 (canonical env path), sink, Some fd)
            else
              let times = fd_times fd in
              (case
                 (if file_size = 0 then read_loop (unat block_size) read_max predicate 0 fd sink
                  else if file_size < 0 \<or> nat file_size > string_max_size env
                  then Inl LengthError
                  else
                    (case platform_read fd (nat file_size) of
                       (part_bytes, bytes, fd') \<Rightarrow>
                         Inr (False, fd',
                              predicate (filled (nat file_size) bytes) (nat file_size) sink)))
               of
                 Inl f \<Rightarrow> Inl f
               | Inr (exceeded, fd', sink') \<Rightarrow>
                   if exceeded then Inr (Status 1 ''File exceeds read limits'', sink', Some fd')
                   else
                     Inr (Status 0 ''OK'', sink',
                          Some (if preserve_time \<and> \<not> FLAGS_disable_forensic flags
                                then fd'\<lparr>fd_times := times\<rparr> else fd'))))"

text \<open>
  The six-argument \<^verbatim>\<open>readFile\<close> of lines 172 to 191: the sink appends to \<open>content\<close>, and
  the block size is 4096.
\<close>

definition append_content :: "string \<Rightarrow> nat \<Rightarrow> string \<Rightarrow> string" where
  "append_content buffer size_arg content =
     (if length buffer = size_arg then content @ buffer else content @ take size_arg buffer)"

definition readFile_content ::
  "FLAGS \<Rightarrow> platform \<Rightarrow> string \<Rightarrow> string \<Rightarrow> 64 word \<Rightarrow> bool \<Rightarrow> bool \<Rightarrow> bool \<Rightarrow>
   fault + Status \<times> string \<times> PlatformFile option" where
  "readFile_content flags env path content size_arg dry_run preserve_time blocking =
     readFile flags env path size_arg 4096 dry_run preserve_time append_content blocking content"

subsection \<open>Chunks of a stream, in the words of the claims\<close>

text \<open>
  The chunks of a streamed source that keep the running total under the ceiling: the
  longest prefix of \<open>cs\<close> in which every chunk leaves the total below \<open>limit\<close>, the total
  being \<open>running\<close> before. This follows the words of the claims on the streaming path, not
  the source; the theorems compare what \<open>readFile\<close> delivers with it.
\<close>

fun under_ceiling :: "int \<Rightarrow> int \<Rightarrow> string list \<Rightarrow> string list" where
  "under_ceiling limit running [] = []"
| "under_ceiling limit running (c # cs) =
     (if running + int (length c) < limit
      then c # under_ceiling limit (running + int (length c)) cs
      else [])"

text \<open>
  The call of the sink the loop makes for a chunk \<open>c\<close>: the 4096-byte buffer that starts
  with \<open>c\<close>, and the size of \<open>c\<close>. \<open>log_call\<close> is the sink that records its calls.
\<close>

definition deliver :: "(string \<Rightarrow> nat \<Rightarrow> 's \<Rightarrow> 's) \<Rightarrow> 's \<Rightarrow> string \<Rightarrow> 's" where
  "deliver predicate sink c = predicate (filled 4096 c) (length c) sink"


text \<open>
  A base in canonical form, in the words of the claim on idempotence: \<^verbatim>\<open>fs::canonical\<close>
  returns the base as it is, or the base is a directory in canonical form followed by the
  separator (the canonical path of a directory has no separator at its end; line 337 adds
  it again), which is the form of the base in the patterns the translation produces.
\<close>

definition canonical_base :: "platform \<Rightarrow> string \<Rightarrow> bool" where
  "canonical_base env base \<longleftrightarrow>
     canonical env base = base \<or>
     (base \<noteq> [] \<and> last base = CHR ''/'' \<and> butlast base \<noteq> [] \<and>
      canonical env base = butlast base \<and> ok (isDirectory env (butlast base)))"

subsection \<open>Example inputs\<close>

text \<open>
  A regular file \<^verbatim>\<open>/usr/lib/mod.so\<close> owned by root in the directory \<^verbatim>\<open>/usr/lib\<close>, on a
  system whose working directory is \<^verbatim>\<open>/home/u\<close>; nothing is a symbolic link, so
  \<^verbatim>\<open>fs::canonical\<close> fails (the empty path) on what does not exist and returns every other
  path as it is, without the separator at its end if it has one.
\<close>

definition eof :: "read_event stream" where
  "eof = sconst (Avail [])"

definition example_file :: PlatformFile where
  "example_file =
     \<lparr>isValid = True, fd_size = 4, isSpecialFile = False,
      isOwnerRoot = Status 0 ''OK'', isOwnerCurrentUser = Status 1 ''not the owner'',
      isExecutable = Status 0 ''OK'', isNonWritable = Status 0 ''OK'',
      fd_times = \<lparr>atime = 100, mtime = 50\<rparr>,
      touch = (\<lambda>t. t\<lparr>atime := 200\<rparr>),
      pending = Avail ''ELF!'' ## eof\<rparr>"

definition example_platform :: platform where
  "example_platform =
     \<lparr>current_path = ''/home/u'',
      canonical =
        (\<lambda>p. if p \<in> {''/usr/lib'', ''/usr/lib/mod.so'', ''/home/u''} then p
             else if p \<in> {''/usr/lib/'', ''/home/u/''} then butlast p
             else []),
      is_directory = (\<lambda>p. (p \<in> {''/usr/lib'', ''/home/u''}, \<lparr>ec_value = 0, ec_message = ''Success''\<rparr>)),
      platformGlob = (\<lambda>p. if p = ''/usr/lib/*'' then [''/usr/lib/mod.so''] else []),
      platformIsFileAccessible = (\<lambda>p. Status 0 ''OK''),
      platformIsTmpDir = (\<lambda>p. Status 1 ''not a temporary directory''),
      dropToParent = (\<lambda>p. True),
      openPlatformFile = (\<lambda>p nonblocking. example_file),
      string_max_size = 2 ^ 62 - 1\<rparr>"

definition default_flags :: FLAGS where
  "default_flags =
     \<lparr>FLAGS_read_max = 52428800, FLAGS_read_user_max = 10485760,
      FLAGS_allow_unsafe = False, FLAGS_disable_forensic = True\<rparr>"

text \<open>A read ceiling of four bytes for files owned by root, and forensic reads enabled.\<close>

definition tiny_flags :: FLAGS where
  "tiny_flags = default_flags\<lparr>FLAGS_read_max := 4\<rparr>"

definition forensic_flags :: FLAGS where
  "forensic_flags = default_flags\<lparr>FLAGS_disable_forensic := False\<rparr>"

text \<open>
  A pipe \<^verbatim>\<open>/run/pipe\<close>: a special file of unknown size (reported as 0) whose four bytes
  arrive two at a time.
\<close>

definition example_pipe :: PlatformFile where
  "example_pipe =
     example_file\<lparr>fd_size := 0, isSpecialFile := True,
       pending := Avail ''EL'' ## Avail ''F!'' ## eof\<rparr>"

definition pipe_platform :: platform where
  "pipe_platform = example_platform\<lparr>openPlatformFile := (\<lambda>p nonblocking. example_pipe)\<rparr>"


text \<open>
  The same system where \<^verbatim>\<open>/home/u/link\<close> is a symbolic link to the directory \<^verbatim>\<open>/data\<close>, which
  exists.
\<close>

definition linked_platform :: platform where
  "linked_platform =
     example_platform
       \<lparr>canonical := (\<lambda>p. if p \<in> {''/home/u/link/'', ''/home/u/link'', ''/data/'', ''/data''}
                          then ''/data'' else []),
        is_directory := (\<lambda>p. (p \<in> {''/data'', ''/home/u/link''},
                                \<lparr>ec_value = 0, ec_message = ''Success''\<rparr>))\<rparr>"

definition cyclic_platform :: platform where
  "cyclic_platform = example_platform\<lparr>platformGlob := (\<lambda>p. [''/a/loop/''])\<rparr>"

section \<open>The permission validator\<close>

text \<open>
  C1, as stated: whenever \<open>path\<close> names a directory the verdict is false, whatever the
  allow-unsafe override. The code returns \<open>true\<close> at line 413 for every accessible path
  once \<^verbatim>\<open>--allow_unsafe\<close> is set, before it looks at the kind of the path: with the flag
  set, the directory \<^verbatim>\<open>/usr/lib\<close> is accepted.
\<close>

theorem safePermissions_directory_counterexample:
  "ok (isDirectory example_platform ''/usr/lib'') \<and>
   safePermissions (default_flags\<lparr>FLAGS_allow_unsafe := True\<rparr>) example_platform
     ''/usr'' ''/usr/lib'' True"
  by (simp add: safePermissions_def isDirectory_def ok_def example_platform_def default_flags_def)

text \<open>
  C1, amended: when the allow-unsafe override is off, the verdict is false for every
  path that names a directory; when the override is on, the verdict is true exactly when
  the path is accessible, directory or not.
\<close>

theorem safePermissions_directory:
  "(\<not> FLAGS_allow_unsafe flags \<and> ok (isDirectory env path) \<longrightarrow>
      \<not> safePermissions flags env dir path executable) \<and>
   (FLAGS_allow_unsafe flags \<longrightarrow>
      safePermissions flags env dir path executable = ok (platformIsFileAccessible env path))"
  by (simp add: safePermissions_def Let_def)

theorem safePermissions_directory_witness:
  "\<not> FLAGS_allow_unsafe default_flags \<and> ok (isDirectory example_platform ''/usr/lib'') \<and>
   \<not> safePermissions default_flags example_platform ''/usr'' ''/usr/lib'' True"
  using safePermissions_directory [of default_flags example_platform "''/usr/lib''" "''/usr''" True]
  by (simp add: isDirectory_def ok_def example_platform_def default_flags_def)

section \<open>The glob translator\<close>

lemma replace_all_absent: "a \<notin> set s \<Longrightarrow> replace_all s a b = s"
  by (induction s) (auto simp: replace_all_def)

lemma replace_all_removes: "a \<noteq> b \<Longrightarrow> a \<notin> set (replace_all s a b)"
  by (auto simp: replace_all_def)

text \<open>The guard \<^verbatim>\<open>pattern.find("%") != npos\<close> of line 310 changes nothing.\<close>

lemma percent_replaced:
  "(if CHR ''%'' \<in> set pattern then replace_all pattern CHR ''%'' CHR ''*'' else pattern)
     = replace_all pattern CHR ''%'' CHR ''*''"
  by (simp add: replace_all_absent)



text \<open>
  Where canonicalisation is skipped, fails or returns the base as it is, the result is
  the pattern of line 321.
\<close>

lemma replaceGlobWildcards_unchanged_base:
  assumes "GLOB_NO_CANON limits \<or> canonical env (pattern_base p) = [] \<or>
           canonical env (pattern_base p) = pattern_base p"
    and "p = (if relative_pattern (replace_all pattern CHR ''%'' CHR ''*'')
              then path_append (current_path env) (replace_all pattern CHR ''%'' CHR ''*'')
              else replace_all pattern CHR ''%'' CHR ''*'')"
  shows "replaceGlobWildcards env pattern limits = p"
  using assms
  by (auto simp: replaceGlobWildcards_def percent_replaced make_preferred_def Let_def)

text \<open>
  C5, as stated: translating the empty pattern returns the empty pattern. The test of
  line 315 starts with \<^verbatim>\<open>pattern.size() == 0\<close>: the empty pattern counts as relative and
  becomes the working directory.
\<close>

theorem replaceGlobWildcards_empty_counterexample:
  "replaceGlobWildcards example_platform [] GLOB_ALL = ''/home/u''"
  by (simp add: replaceGlobWildcards_def relative_pattern_def char_at_def path_append_def
      make_preferred_def pattern_base_def Let_def example_platform_def GLOB_ALL_def)

text \<open>
  C5, amended: the empty pattern is not passed through. It is replaced by the current
  working directory, which is then canonicalised like every other base: the result is not
  empty when the working directory is known, and it is the working directory itself when
  canonicalisation is skipped, fails or changes nothing.
\<close>

theorem replaceGlobWildcards_empty:
  "(current_path env \<noteq> [] \<longrightarrow> replaceGlobWildcards env [] limits \<noteq> []) \<and>
   (GLOB_NO_CANON limits \<or> canonical env (pattern_base (current_path env)) = [] \<or>
    canonical env (pattern_base (current_path env)) = pattern_base (current_path env) \<longrightarrow>
      replaceGlobWildcards env [] limits = current_path env)"
  by (auto simp: replaceGlobWildcards_def relative_pattern_def char_at_def path_append_def
      make_preferred_def Let_def)

theorem replaceGlobWildcards_empty_witness:
  "current_path example_platform \<noteq> [] \<and>
   replaceGlobWildcards example_platform [] GLOB_ALL \<noteq> [] \<and>
   canonical example_platform (pattern_base (current_path example_platform))
     = pattern_base (current_path example_platform) \<and>
   replaceGlobWildcards example_platform [] GLOB_ALL = current_path example_platform"
  using replaceGlobWildcards_empty [of example_platform GLOB_ALL]
  by (simp add: example_platform_def pattern_base_def make_preferred_def)




text \<open>The base and what follows it make up the pattern.\<close>

lemma pattern_base_split: "pattern_base p @ drop (length (pattern_base p)) p = p"
proof -
  have "drop (length (takeWhile (\<lambda>c. c \<noteq> CHR ''*'') p)) p = dropWhile (\<lambda>c. c \<noteq> CHR ''*'') p"
    by (rule dropWhile_eq_drop [symmetric])
  then show ?thesis by (simp add: pattern_base_def make_preferred_def)
qed

text \<open>
  An absolute pattern whose base is in canonical form is translated by the replacement of
  \<open>%\<close> alone. Where the base is a directory with its separator, lines 332 to 343 take the
  canonical path, add the separator again and put the rest of the pattern after it, which
  gives the pattern back.
\<close>

lemma replaceGlobWildcards_canonical_base:
  assumes "\<not> relative_pattern (replace_all pattern CHR ''%'' CHR ''*'')"
    and "GLOB_NO_CANON limits \<or>
         canonical env (pattern_base (replace_all pattern CHR ''%'' CHR ''*'')) = [] \<or>
         canonical_base env (pattern_base (replace_all pattern CHR ''%'' CHR ''*''))"
  shows "replaceGlobWildcards env pattern limits = replace_all pattern CHR ''%'' CHR ''*''"
proof -
  let ?p = "replace_all pattern CHR ''%'' CHR ''*''"
  let ?b = "pattern_base ?p"
  show ?thesis
  proof (cases "GLOB_NO_CANON limits \<or> canonical env ?b = [] \<or> canonical env ?b = ?b")
    case True
    with assms(1) show ?thesis
      by (intro replaceGlobWildcards_unchanged_base) simp_all
  next
    case False
    with assms(2) have dir: "?b \<noteq> []" "last ?b = CHR ''/''" "butlast ?b \<noteq> []"
      "canonical env ?b = butlast ?b" "ok (isDirectory env (butlast ?b))"
      by (auto simp: canonical_base_def)
    from dir(1,2) have again: "butlast ?b @ ''/'' = ?b"
      using append_butlast_last_id [of ?b] by simp
    have "replaceGlobWildcards env pattern limits
        = (butlast ?b @ ''/'') @ drop (length ?b) ?p"
      using False dir assms(1)
      by (simp add: replaceGlobWildcards_def percent_replaced make_preferred_def Let_def)
    also have "\<dots> = ?p"
      unfolding again by (rule pattern_base_split)
    finally show ?thesis .
  qed
qed

text \<open>The translation of \<^verbatim>\<open>/usr/lib/%\<close> on the example system, through lines 332 to 343.\<close>

lemma example_translation:
  "replaceGlobWildcards example_platform ''/usr/lib/%'' GLOB_ALL = ''/usr/lib/*''"
  by (simp add: replaceGlobWildcards_def relative_pattern_def char_at_def make_preferred_def
      pattern_base_def Let_def example_platform_def replace_all_def GLOB_ALL_def
      isDirectory_def ok_def)

text \<open>
  C7: the translation is idempotent on absolute patterns whose base is in canonical form.
  For every pattern that starts with \<open>/\<close> and whose base (what stands before the first
  wildcard, \<open>%\<close> or \<open>*\<close>) is in canonical form, translating the translation gives the
  translation. The base is in canonical form when \<^verbatim>\<open>fs::canonical\<close> returns it as it is, or
  when it is a directory in canonical form followed by the separator, as in \<^verbatim>\<open>/usr/lib/*\<close>
  (\<open>canonical_base\<close>); the same holds where the base is not canonicalised at all, because
  \<^verbatim>\<open>GLOB_NO_CANON\<close> is set or because \<^verbatim>\<open>fs::canonical\<close> fails on a base that does not exist.
\<close>

theorem replaceGlobWildcards_idempotent:
  assumes "pattern \<noteq> []" and "hd pattern = CHR ''/''"
    and "GLOB_NO_CANON limits \<or>
         canonical env (pattern_base (replace_all pattern CHR ''%'' CHR ''*'')) = [] \<or>
         canonical_base env (pattern_base (replace_all pattern CHR ''%'' CHR ''*''))"
  shows "replaceGlobWildcards env (replaceGlobWildcards env pattern limits) limits
           = replaceGlobWildcards env pattern limits"
proof -
  let ?p = "replace_all pattern CHR ''%'' CHR ''*''"
  have first: "char_at ?p 0 = CHR ''/''"
    using assms(1,2) by (cases pattern) (simp_all add: char_at_def replace_all_def)
  then have absolute: "\<not> relative_pattern ?p"
    using assms(1) by (simp add: relative_pattern_def replace_all_def)
  have once: "replaceGlobWildcards env pattern limits = ?p"
    using absolute assms(3) by (rule replaceGlobWildcards_canonical_base)
  have fixed: "replace_all ?p CHR ''%'' CHR ''*'' = ?p"
    by (intro replace_all_absent replace_all_removes) simp
  have "replaceGlobWildcards env ?p limits = replace_all ?p CHR ''%'' CHR ''*''"
  proof (rule replaceGlobWildcards_canonical_base)
    show "\<not> relative_pattern (replace_all ?p CHR ''%'' CHR ''*'')"
      using absolute by (simp add: fixed)
    show "GLOB_NO_CANON limits \<or>
         canonical env (pattern_base (replace_all ?p CHR ''%'' CHR ''*'')) = [] \<or>
         canonical_base env (pattern_base (replace_all ?p CHR ''%'' CHR ''*''))"
      using assms(3) by (simp add: fixed)
  qed
  with once show ?thesis by (simp add: fixed)
qed

theorem replaceGlobWildcards_idempotent_witness:
  "canonical example_platform (pattern_base (replace_all ''/usr/lib/%'' CHR ''%'' CHR ''*''))
     \<noteq> pattern_base (replace_all ''/usr/lib/%'' CHR ''%'' CHR ''*'') \<and>
   canonical_base example_platform (pattern_base (replace_all ''/usr/lib/%'' CHR ''%'' CHR ''*'')) \<and>
   replaceGlobWildcards example_platform
     (replaceGlobWildcards example_platform ''/usr/lib/%'' GLOB_ALL) GLOB_ALL
     = replaceGlobWildcards example_platform ''/usr/lib/%'' GLOB_ALL \<and>
   replaceGlobWildcards example_platform ''/usr/lib/%'' GLOB_ALL = ''/usr/lib/*''"
proof -
  have changed:
    "canonical example_platform (pattern_base (replace_all ''/usr/lib/%'' CHR ''%'' CHR ''*''))
       \<noteq> pattern_base (replace_all ''/usr/lib/%'' CHR ''%'' CHR ''*'')"
    by (simp add: example_platform_def pattern_base_def make_preferred_def replace_all_def)
  have canon:
    "canonical_base example_platform (pattern_base (replace_all ''/usr/lib/%'' CHR ''%'' CHR ''*''))"
    by (simp add: canonical_base_def example_platform_def pattern_base_def make_preferred_def
        replace_all_def isDirectory_def ok_def)
  from canon have "GLOB_NO_CANON GLOB_ALL \<or>
       canonical example_platform (pattern_base (replace_all ''/usr/lib/%'' CHR ''%'' CHR ''*'')) = [] \<or>
       canonical_base example_platform (pattern_base (replace_all ''/usr/lib/%'' CHR ''%'' CHR ''*''))"
    by simp
  from replaceGlobWildcards_idempotent [of "''/usr/lib/%''" GLOB_ALL example_platform, OF _ _ this]
  have "replaceGlobWildcards example_platform
     (replaceGlobWildcards example_platform ''/usr/lib/%'' GLOB_ALL) GLOB_ALL
     = replaceGlobWildcards example_platform ''/usr/lib/%'' GLOB_ALL"
    by simp
  with changed canon example_translation show ?thesis by simp
qed

section \<open>The glob expander\<close>

text \<open>
  The loop expands one pattern for each iteration, and \<open>glob_index\<close> counts them: entered
  with \<open>glob_index\<close>, it makes at most \<open>63 - glob_index\<close> iterations.
\<close>

lemma genGlobs_loop_expanded:
  "length (snd (genGlobs_loop env glob_index path results expanded))
     \<le> length expanded + (kMaxRecursiveGlobs - 1 - glob_index)"
proof (induction env glob_index path results expanded rule: genGlobs_loop.induct)
  case (1 env glob_index path results expanded)
  show ?case
  proof (cases "glob_index + 1 < kMaxRecursiveGlobs")
    case False
    then show ?thesis by (simp add: genGlobs_loop.simps [of env glob_index])
  next
    case inside: True
    show ?thesis
    proof (cases "length (platformGlob env path) = 0 \<or> rfind path ''**'' > length path \<or>
            rfind path ''**'' < size_t_sub (length path) 3")
      case True
      with inside show ?thesis by (simp add: genGlobs_loop.simps [of env glob_index])
    next
      case False
      with inside "1.IH" have
        "length (snd (genGlobs_loop env (glob_index + 1) (path @ ''/**'')
            (results @ platformGlob env path) (expanded @ [path])))
         \<le> length (expanded @ [path]) + (kMaxRecursiveGlobs - 1 - (glob_index + 1))"
        by blast
      with inside False show ?thesis
        by (simp add: genGlobs_loop.simps [of env glob_index])
    qed
  qed
qed

text \<open>What the loop returns is what the caller passed and what \<^verbatim>\<open>platformGlob\<close> produced.\<close>

lemma genGlobs_loop_results:
  "set (fst (genGlobs_loop env glob_index path results expanded))
     \<subseteq> set results \<union> (\<Union>p. set (platformGlob env p))"
proof (induction env glob_index path results expanded rule: genGlobs_loop.induct)
  case (1 env glob_index path results expanded)
  show ?case
  proof (cases "glob_index + 1 < kMaxRecursiveGlobs")
    case False
    then show ?thesis by (simp add: genGlobs_loop.simps [of env glob_index])
  next
    case inside: True
    show ?thesis
    proof (cases "length (platformGlob env path) = 0 \<or> rfind path ''**'' > length path \<or>
            rfind path ''**'' < size_t_sub (length path) 3")
      case True
      with inside show ?thesis by (auto simp add: genGlobs_loop.simps [of env glob_index])
    next
      case False
      with inside "1.IH" have
        "set (fst (genGlobs_loop env (glob_index + 1) (path @ ''/**'')
            (results @ platformGlob env path) (expanded @ [path])))
         \<subseteq> set (results @ platformGlob env path) \<union> (\<Union>p. set (platformGlob env p))"
        by blast
      with inside False show ?thesis
        by (auto simp add: genGlobs_loop.simps [of env glob_index])
    qed
  qed
qed

lemma example_expansion:
  "genGlobs_loop example_platform 0 ''/usr/lib/*'' results []
     = (results @ [''/usr/lib/mod.so''], [''/usr/lib/*''])"
  by (simp add: genGlobs_loop.simps example_platform_def kMaxRecursiveGlobs_def rfind_def
      npos_def upt_rec)

lemma pruned_fault: "pruned limits found = Inl f \<Longrightarrow> f = OutOfRange"
  by (auto simp: pruned_def string_index_def split: if_splits sum.splits)

lemma remove_if_fault: "remove_if (pruned limits) xs = Inl f \<Longrightarrow> f = OutOfRange"
  by (induction xs) (auto split: sum.splits dest: pruned_fault)

text \<open>
  \<^verbatim>\<open>found.length() - 1\<close> is an index of \<open>found\<close> when \<open>found\<close> is not empty, also after
  the reduction modulo \<open>2 ^ 64\<close>.
\<close>

lemma last_index_in_range: "found \<noteq> [] \<Longrightarrow> size_t_sub (length found) 1 < length found"
proof -
  assume "found \<noteq> []"
  then have pos: "0 < length found" by simp
  have "(length found + 2 ^ 64 - 1) mod 2 ^ 64 = (length found - 1) mod (2 ^ 64 :: nat)"
    using pos by (metis Nat.add_diff_assoc2 One_nat_def Suc_leI mod_add_self2)
  also have "\<dots> \<le> length found - 1" by simp
  finally have "size_t_sub (length found) 1 \<le> length found - 1"
    unfolding size_t_sub_def .
  with pos show ?thesis by linarith
qed

lemma pruned_nonempty: "found \<noteq> [] \<Longrightarrow> \<exists>b. pruned limits found = Inr b"
  using last_index_in_range [of found] by (simp add: pruned_def string_index_def)

lemma remove_if_nonempty: "[] \<notin> set xs \<Longrightarrow> \<exists>ys. remove_if (pruned limits) xs = Inr ys"
proof (induction xs)
  case Nil
  then show ?case by simp
next
  case (Cons x xs)
  then obtain ys where "remove_if (pruned limits) xs = Inr ys" by auto
  moreover from Cons.prems obtain b where "pruned limits x = Inr b"
    using pruned_nonempty [of x limits] by auto
  ultimately show ?case by simp
qed

lemma genGlobs_nonempty:
  assumes "\<forall>p. [] \<notin> set (platformGlob env p)" and "[] \<notin> set results"
  shows "\<exists>matches. genGlobs env path results limits = Inr matches"
proof -
  have "[] \<notin> set (fst (genGlobs_loop env 0 (replaceGlobWildcards env path limits) results []))"
    using genGlobs_loop_results [of env 0 "replaceGlobWildcards env path limits" results "[]"]
      assms
    by auto
  then show ?thesis
    unfolding genGlobs_def by (rule remove_if_nonempty)
qed

text \<open>
  C4: for every pattern and every filesystem the expansion loop terminates after at most
  64 single-level expansions, and reaching the bound is not an error. \<open>genGlobs_loop\<close> is
  a total function (its termination is proved from the counter alone, whatever
  \<^verbatim>\<open>platformGlob\<close> returns); the patterns it expands are at most 63, hence at most 64; and
  \<open>resolveFilePattern\<close> has no result but \<^verbatim>\<open>Status(0, "OK")\<close>, the undefined read of the final
  filter on an empty string apart (C10), also when the bound stopped the loop.
\<close>

theorem genGlobs_terminates:
  "length (snd (genGlobs_loop env 0 path results [])) \<le> 64 \<and>
   (case resolveFilePattern env pattern results limits of
      Inl f \<Rightarrow> f = OutOfRange
    | Inr (status, matches) \<Rightarrow> status = Status 0 ''OK'')"
proof -
  have "length (snd (genGlobs_loop env 0 path results [])) \<le> 63"
    using genGlobs_loop_expanded [of env 0 path results "[]"]
    by (simp add: kMaxRecursiveGlobs_def)
  moreover have "case resolveFilePattern env pattern results limits of
      Inl f \<Rightarrow> f = OutOfRange
    | Inr (status, matches) \<Rightarrow> status = Status 0 ''OK''"
    by (auto simp: resolveFilePattern_def genGlobs_def split: sum.splits dest: remove_if_fault)
  ultimately show ?thesis by simp
qed

theorem genGlobs_terminates_witness:
  "length (snd (genGlobs_loop example_platform 0 ''/usr/lib/*'' [] [])) \<le> 64 \<and>
   resolveFilePattern example_platform ''/usr/lib/%'' [] GLOB_ALL
     = Inr (Status 0 ''OK'', [''/usr/lib/mod.so''])"
proof -
  have "resolveFilePattern example_platform ''/usr/lib/%'' [] GLOB_ALL
     = Inr (Status 0 ''OK'', [''/usr/lib/mod.so''])"
    unfolding resolveFilePattern_def genGlobs_def example_translation example_expansion
    by (simp add: GLOB_ALL_def pruned_def string_index_def char_at_def size_t_sub_def)
  then show ?thesis
    using genGlobs_terminates [of example_platform "''/usr/lib/*''" "[]" "''/usr/lib/%''" GLOB_ALL]
    by simp
qed

text \<open>
  C10, as stated: when every path \<^verbatim>\<open>platformGlob\<close> produces is non-empty, the index
  \<^verbatim>\<open>found.length() - 1\<close> is in range for every element the filter reads. The filter runs
  from \<^verbatim>\<open>results.begin()\<close>, over what the caller's vector held before the call too: with an
  empty string in it the index is \<open>2 ^ 64 - 1\<close>, out of range.
\<close>

theorem genGlobs_filter_counterexample:
  "genGlobs example_platform ''/usr/lib/%'' [''''] GLOB_ALL = Inl OutOfRange"
  unfolding genGlobs_def example_translation example_expansion
  by (simp add: pruned_def string_index_def size_t_sub_def)

text \<open>
  C10, amended: when every path \<^verbatim>\<open>platformGlob\<close> produces is non-empty and every string
  the caller's \<open>results\<close> vector holds at the call is non-empty, the index
  \<^verbatim>\<open>found.length() - 1\<close> is in range for every element: the filter returns a list, and its
  out-of-range branch is not reached.
\<close>

theorem genGlobs_filter_in_range:
  assumes "\<forall>p. [] \<notin> set (platformGlob env p)" and "[] \<notin> set results"
  shows "\<exists>matches. genGlobs env path results limits = Inr matches"
  using assms by (rule genGlobs_nonempty)

theorem genGlobs_filter_in_range_witness:
  "(\<forall>p. [] \<notin> set (platformGlob example_platform p)) \<and> [] \<notin> set [''/opt/old.so''] \<and>
   (\<exists>matches. genGlobs example_platform ''/usr/lib/%'' [''/opt/old.so''] GLOB_ALL = Inr matches)"
proof -
  have glob: "\<forall>p. [] \<notin> set (platformGlob example_platform p)"
    by (simp add: example_platform_def)
  have given: "[] \<notin> set [''/opt/old.so'']"
    by simp
  show ?thesis
    using genGlobs_filter_in_range [OF glob given] glob by simp
qed

section \<open>The bounded reader\<close>

text \<open>The casts to \<^verbatim>\<open>off_t\<close> give values of its range.\<close>

lemma sint_le_off_t_max: "sint (w :: 64 word) \<le> off_t_max"
  using sint_lt [of w] by (simp add: off_t_max_def)

text \<open>A read that finds no more bytes ready than it asks for returns them all.\<close>

lemma platform_read_avail:
  assumes "pending fd = Avail c ## rest" and "length c \<le> nbyte"
  shows "platform_read fd nbyte =
           (int (length c), c, fd\<lparr>fd_times := touch fd (fd_times fd), pending := rest\<rparr>)"
  using assms by (simp add: platform_read_def Let_def)

text \<open>
  A read changes the timestamps and what is pending, and nothing else of the handle; so
  does the loop.
\<close>

lemma platform_read_frame:
  assumes "platform_read fd nbyte = (part_bytes, bytes, fd')"
  shows "isValid fd' = isValid fd \<and> fd_size fd' = fd_size fd \<and>
         isSpecialFile fd' = isSpecialFile fd \<and> isOwnerRoot fd' = isOwnerRoot fd \<and>
         isOwnerCurrentUser fd' = isOwnerCurrentUser fd \<and> isExecutable fd' = isExecutable fd \<and>
         isNonWritable fd' = isNonWritable fd \<and> touch fd' = touch fd"
  using assms by (auto simp: platform_read_def Let_def split: read_event.splits if_splits)

lemma read_loop_frame:
  "read_loop block_size read_max predicate total_bytes fd sink = Inr (exceeded, fd', sink') \<Longrightarrow>
     isValid fd' = isValid fd \<and> fd_size fd' = fd_size fd \<and>
     isSpecialFile fd' = isSpecialFile fd \<and> isOwnerRoot fd' = isOwnerRoot fd \<and>
     isOwnerCurrentUser fd' = isOwnerCurrentUser fd \<and> isExecutable fd' = isExecutable fd \<and>
     isNonWritable fd' = isNonWritable fd \<and> touch fd' = touch fd"
proof (induction block_size read_max predicate total_bytes fd sink rule: read_loop.induct)
  case (1 block_size read_max predicate total_bytes fd sink)
  obtain part_bytes bytes fd1 where rd: "platform_read fd block_size = (part_bytes, bytes, fd1)"
    by (cases "platform_read fd block_size") auto
  note fr = platform_read_frame [OF rd]
  show ?case
  proof (cases "part_bytes > 0 \<and> \<not> part_bytes > 4096 \<and> \<not> total_bytes + part_bytes > off_t_max \<and>
                \<not> total_bytes + part_bytes \<ge> read_max")
    case True
    then have "read_loop block_size read_max predicate total_bytes fd sink =
        read_loop block_size read_max predicate (total_bytes + part_bytes) fd1
          (predicate (filled 4096 bytes) (nat part_bytes) sink)"
      using rd by (subst read_loop.simps) simp
    with "1.prems" have "read_loop block_size read_max predicate (total_bytes + part_bytes) fd1
          (predicate (filled 4096 bytes) (nat part_bytes) sink) = Inr (exceeded, fd', sink')"
      by simp
    from "1.IH" [OF rd [symmetric] refl _ _ _ _ this] True fr show ?thesis
      by simp
  next
    case False
    with "1.prems" rd have "fd' = fd1"
      by (subst (asm) read_loop.simps) (auto split: if_splits)
    with fr show ?thesis by simp
  qed
qed

lemma example_file_opened:
  "OpenReadableFile example_platform ''/usr/lib/mod.so'' False = Some example_file"
  by (simp add: OpenReadableFile_def example_platform_def)

lemma example_pipe_opened:
  "OpenReadableFile pipe_platform ''/run/pipe'' False = Some example_pipe"
  by (simp add: OpenReadableFile_def pipe_platform_def example_platform_def)




text \<open>
  The loop on a source whose next reads return the chunks \<open>cs\<close>, when their bytes take the
  running total to the ceiling or beyond: the call leaves with the limit error, and the
  sink has received the chunks that kept the total under the ceiling, no other. The last
  hypothesis keeps the sum \<open>total_bytes\<close> in the range of \<^verbatim>\<open>off_t\<close>.
\<close>

lemma read_loop_limit:
  assumes "pending fd = map Avail cs @- rest"
    and "\<forall>c\<in>set cs. 0 < length c \<and> length c \<le> block_size \<and> length c \<le> 4096"
    and "cs \<noteq> []" and "running \<le> read_max"
    and "read_max \<le> running + int (sum_list (map length cs))"
    and "read_max + 4096 \<le> off_t_max \<or> running + int (sum_list (map length cs)) \<le> off_t_max"
  shows "\<exists>fd'. read_loop block_size read_max predicate running fd sink =
           Inr (True, fd', foldl (deliver predicate) sink (under_ceiling read_max running cs))"
  using assms
proof (induction cs arbitrary: running fd sink)
  case Nil
  then show ?case by simp
next
  case (Cons c cs)
  let ?fd1 = "fd\<lparr>fd_times := touch fd (fd_times fd), pending := map Avail cs @- rest\<rparr>"
  from Cons.prems(1,2) have rd:
    "platform_read fd block_size = (int (length c), c, ?fd1)"
    by (intro platform_read_avail) simp_all
  from Cons.prems(2) have len: "0 < length c" "length c \<le> 4096" by simp_all
  from Cons.prems(4,6) len have fits: "running + int (length c) \<le> off_t_max"
    by auto
  show ?case
  proof (cases "read_max \<le> running + int (length c)")
    case True
    then have "read_loop block_size read_max predicate running fd sink = Inr (True, ?fd1, sink)"
      using rd len fits by (subst read_loop.simps) simp
    with True show ?thesis by simp
  next
    case False
    then have step: "read_loop block_size read_max predicate running fd sink =
        read_loop block_size read_max predicate (running + int (length c)) ?fd1
          (deliver predicate sink c)"
      using rd len fits by (subst read_loop.simps) (simp add: deliver_def)
    from False Cons.prems(5) have nonempty: "cs \<noteq> []" by auto
    have "\<exists>fd'. read_loop block_size read_max predicate (running + int (length c)) ?fd1
          (deliver predicate sink c) =
        Inr (True, fd', foldl (deliver predicate) (deliver predicate sink c)
               (under_ceiling read_max (running + int (length c)) cs))"
      using Cons.prems False nonempty by (intro Cons.IH) (auto simp: add.assoc)
    with step False show ?thesis by simp
  qed
qed

text \<open>
  C2, as stated: on the single-shot path a file whose size is at or above the ceiling is
  refused, and a file below it is delivered as it is. The test of line 129 is
  \<^verbatim>\<open>file_size > read_max\<close>: a file of exactly the ceiling's size is read and delivered (here
  the ceiling is 4 and the file has 4 bytes). And line 161 reads once and drops the value
  \<^verbatim>\<open>read\<close> returns: the pipe, read with a size of 4 while 2 of its bytes are ready, delivers
  those 2 bytes and 2 NULs.
\<close>

theorem readFile_single_shot_counterexample:
  "determined_size example_file 0 = read_limit tiny_flags example_file \<and>
   readFile tiny_flags example_platform ''/usr/lib/mod.so'' 0 4096 False False append_content False []
     = Inr (Status 0 ''OK'', ''ELF!'',
            Some (example_file\<lparr>fd_times := \<lparr>atime = 200, mtime = 50\<rparr>, pending := eof\<rparr>)) \<and>
   determined_size example_pipe 4 < read_limit default_flags example_pipe \<and>
   readFile default_flags pipe_platform ''/run/pipe'' 4 4096 False False append_content False []
     = Inr (Status 0 ''OK'', ''EL'' @ replicate 2 (CHR 0x00),
            Some (example_pipe\<lparr>fd_times := \<lparr>atime = 200, mtime = 50\<rparr>,
                    pending := Avail ''F!'' ## eof\<rparr>))"
  by (simp add: readFile_def OpenReadableFile_def example_platform_def pipe_platform_def
      example_file_def example_pipe_def determined_size_def read_limit_def tiny_flags_def
      default_flags_def ok_def platform_read_def filled_def append_content_def Let_def)

text \<open>
  C2, amended: on the single-shot path (the determined size \<open>n\<close> is not zero), with size
  and ceiling compared as \<^verbatim>\<open>off_t\<close> values: if \<open>n\<close> is strictly above the ceiling the call
  fails with the limit error, nothing is read (the handle is as it was opened) and nothing
  is delivered, dry run or not; if \<open>n\<close> is positive, at most the ceiling and at most the
  size of the largest string the C++ library builds (line 160 builds one of \<open>n\<close> bytes),
  the call succeeds and delivers one buffer of \<open>n\<close> bytes, and that buffer is exactly the
  file's content when the one read returns the \<open>n\<close> bytes of the file.
\<close>

theorem readFile_single_shot:
  assumes "OpenReadableFile env path blocking = Some fd" and "isValid fd"
    and "determined_size fd size_arg = n"
  shows "(read_limit flags fd < n \<longrightarrow>
            readFile flags env path size_arg block_size dry_run preserve_time predicate blocking sink
              = Inr (Status 1 ''File exceeds read limits'', sink, Some fd)) \<and>
         (0 < n \<and> n \<le> read_limit flags fd \<and> nat n \<le> string_max_size env \<and> \<not> dry_run \<longrightarrow>
            (\<exists>fd'. readFile flags env path size_arg block_size dry_run preserve_time predicate blocking sink
               = Inr (Status 0 ''OK'',
                      predicate (filled (nat n) (fst (snd (platform_read fd (nat n))))) (nat n) sink,
                      Some fd'))) \<and>
         (0 < n \<and> n \<le> read_limit flags fd \<and> nat n \<le> string_max_size env \<and> \<not> dry_run \<and>
          pending fd = Avail content ## rest \<and> int (length content) = n \<longrightarrow>
            (\<exists>fd'. readFile flags env path size_arg block_size dry_run preserve_time predicate blocking sink
               = Inr (Status 0 ''OK'', predicate content (length content) sink, Some fd')))"
proof (intro conjI impI)
  assume "read_limit flags fd < n"
  with assms show
    "readFile flags env path size_arg block_size dry_run preserve_time predicate blocking sink
       = Inr (Status 1 ''File exceeds read limits'', sink, Some fd)"
    by (simp add: readFile_def Let_def)
next
  assume "0 < n \<and> n \<le> read_limit flags fd \<and> nat n \<le> string_max_size env \<and> \<not> dry_run"
  with assms show
    "\<exists>fd'. readFile flags env path size_arg block_size dry_run preserve_time predicate blocking sink
       = Inr (Status 0 ''OK'',
              predicate (filled (nat n) (fst (snd (platform_read fd (nat n))))) (nat n) sink,
              Some fd')"
    by (simp add: readFile_def Let_def split: prod.splits)
next
  assume exact: "0 < n \<and> n \<le> read_limit flags fd \<and> nat n \<le> string_max_size env \<and>
          \<not> dry_run \<and> pending fd = Avail content ## rest \<and> int (length content) = n"
  then have "platform_read fd (nat n) =
      (int (length content), content, fd\<lparr>fd_times := touch fd (fd_times fd), pending := rest\<rparr>)"
    by (intro platform_read_avail) auto
  moreover from exact have "nat n = length content" by auto
  ultimately show
    "\<exists>fd'. readFile flags env path size_arg block_size dry_run preserve_time predicate blocking sink
       = Inr (Status 0 ''OK'', predicate content (length content) sink, Some fd')"
    using assms exact by (simp add: readFile_def Let_def filled_def)
qed

theorem readFile_single_shot_witness:
  "readFile default_flags example_platform ''/usr/lib/mod.so'' 0 4096 False False append_content False
       ''seen: ''
     = Inr (Status 0 ''OK'', ''seen: ELF!'',
            Some (example_file\<lparr>fd_times := \<lparr>atime = 200, mtime = 50\<rparr>, pending := eof\<rparr>)) \<and>
   readFile (default_flags\<lparr>FLAGS_read_max := 3\<rparr>) example_platform ''/usr/lib/mod.so'' 0 4096 False
       False append_content False ''seen: ''
     = Inr (Status 1 ''File exceeds read limits'', ''seen: '', Some example_file)"
proof -
  have valid: "isValid example_file"
    by (simp add: example_file_def)
  have size4: "determined_size example_file 0 = 4"
    by (simp add: determined_size_def example_file_def)
  have under: "0 < (4 :: int) \<and> 4 \<le> read_limit default_flags example_file \<and>
      nat 4 \<le> string_max_size example_platform \<and> \<not> False \<and>
      pending example_file = Avail ''ELF!'' ## eof \<and> int (length ''ELF!'') = 4"
    by (simp add: read_limit_def default_flags_def example_file_def example_platform_def ok_def)
  have over: "read_limit (default_flags\<lparr>FLAGS_read_max := 3\<rparr>) example_file < 4"
    by (simp add: read_limit_def default_flags_def example_file_def ok_def)
  note accepted = readFile_single_shot [where flags = default_flags and dry_run = False
      and content = "''ELF!''" and rest = eof and block_size = 4096 and preserve_time = False
      and predicate = append_content and sink = "''seen: ''",
      OF example_file_opened valid size4, THEN conjunct2, THEN conjunct2, rule_format, OF under]
  note refused = readFile_single_shot [where flags = "default_flags\<lparr>FLAGS_read_max := 3\<rparr>"
      and dry_run = False and block_size = 4096 and preserve_time = False
      and predicate = append_content and sink = "''seen: ''",
      OF example_file_opened valid size4, THEN conjunct1, rule_format, OF over]
  have "readFile default_flags example_platform ''/usr/lib/mod.so'' 0 4096 False False append_content
       False ''seen: ''
     = Inr (Status 0 ''OK'', ''seen: ELF!'',
            Some (example_file\<lparr>fd_times := \<lparr>atime = 200, mtime = 50\<rparr>, pending := eof\<rparr>))"
    using accepted
    by (auto simp add: readFile_def OpenReadableFile_def example_platform_def example_file_def
      determined_size_def read_limit_def default_flags_def ok_def platform_read_def
      filled_def append_content_def Let_def)
  with refused show ?thesis by simp
qed





text \<open>
  C8: after a successful call with \<open>preserve_time\<close> set and forensic reads not disabled,
  the timestamps of the file are those it had when it was opened, whatever the reads did to
  them, and the other answers of the handle (validity, size, kind, owner, executability,
  writability) are unchanged; what is still pending to read is all that differs. The
  timestamps are values here: the resolution of the filesystem is not modelled, and
  \<^verbatim>\<open>setFileTimes\<close> sets what it is given.
\<close>

theorem readFile_preserves_times:
  assumes "readFile flags env path size_arg block_size dry_run preserve_time predicate blocking sink
             = Inr (status, sink', Some fd')"
    and "ok status" and "preserve_time" and "\<not> FLAGS_disable_forensic flags"
  shows "\<exists>fd. OpenReadableFile env path blocking = Some fd \<and> fd_times fd' = fd_times fd \<and>
           isValid fd' = isValid fd \<and> fd_size fd' = fd_size fd \<and>
           isSpecialFile fd' = isSpecialFile fd \<and> isOwnerRoot fd' = isOwnerRoot fd \<and>
           isOwnerCurrentUser fd' = isOwnerCurrentUser fd \<and> isExecutable fd' = isExecutable fd \<and>
           isNonWritable fd' = isNonWritable fd"
proof (cases "OpenReadableFile env path blocking")
  case None
  with assms(1) show ?thesis by (simp add: readFile_def)
next
  case (Some fd)
  have valid: "isValid fd"
    using assms(1,2) Some by (auto simp: readFile_def ok_def split: if_splits)
  have within: "\<not> determined_size fd size_arg > read_limit flags fd"
    using assms(1,2) Some valid by (auto simp: readFile_def ok_def Let_def split: if_splits)
  show ?thesis
  proof (cases dry_run)
    case True
    with assms(1) Some valid within have "fd' = fd"
      by (simp add: readFile_def Let_def)
    with Some show ?thesis by simp
  next
    case False
    then have "\<not> dry_run" .
    have "\<exists>fd1. fd' = fd1\<lparr>fd_times := fd_times fd\<rparr> \<and>
         isValid fd1 = isValid fd \<and> fd_size fd1 = fd_size fd \<and>
         isSpecialFile fd1 = isSpecialFile fd \<and> isOwnerRoot fd1 = isOwnerRoot fd \<and>
         isOwnerCurrentUser fd1 = isOwnerCurrentUser fd \<and> isExecutable fd1 = isExecutable fd \<and>
         isNonWritable fd1 = isNonWritable fd \<and> touch fd1 = touch fd"
    proof (cases "determined_size fd size_arg = 0")
      case True
      with assms Some valid within \<open>\<not> dry_run\<close> obtain fd1 where
        "read_loop (unat block_size) (read_limit flags fd) predicate 0 fd sink
          = Inr (False, fd1, sink')" and "fd' = fd1\<lparr>fd_times := fd_times fd\<rparr>"
        by (auto simp: readFile_def Let_def ok_def split: sum.splits if_splits)
      with read_loop_frame [of "unat block_size" "read_limit flags fd" predicate 0 fd sink False fd1 sink']
      show ?thesis by blast
    next
      case False
      with assms Some valid within \<open>\<not> dry_run\<close> obtain part_bytes bytes fd1 where
        "platform_read fd (nat (determined_size fd size_arg)) = (part_bytes, bytes, fd1)"
        and "fd' = fd1\<lparr>fd_times := fd_times fd\<rparr>"
        by (auto simp: readFile_def Let_def ok_def split: sum.splits prod.splits if_splits)
      with platform_read_frame [of fd "nat (determined_size fd size_arg)" part_bytes bytes fd1]
      show ?thesis by blast
    qed
    then obtain fd1 where restored: "fd' = fd1\<lparr>fd_times := fd_times fd\<rparr>"
      and "isValid fd1 = isValid fd \<and> fd_size fd1 = fd_size fd \<and>
         isSpecialFile fd1 = isSpecialFile fd \<and> isOwnerRoot fd1 = isOwnerRoot fd \<and>
         isOwnerCurrentUser fd1 = isOwnerCurrentUser fd \<and> isExecutable fd1 = isExecutable fd \<and>
         isNonWritable fd1 = isNonWritable fd \<and> touch fd1 = touch fd"
      by blast
    with restored Some show ?thesis by simp
  qed
qed

theorem readFile_preserves_times_witness:
  "readFile forensic_flags example_platform ''/usr/lib/mod.so'' 0 4096 False True append_content
       False []
     = Inr (Status 0 ''OK'', ''ELF!'', Some (example_file\<lparr>pending := eof\<rparr>)) \<and>
   ok (Status 0 ''OK'') \<and> \<not> FLAGS_disable_forensic forensic_flags \<and>
   touch example_file (fd_times example_file) \<noteq> fd_times example_file \<and>
   fd_times (example_file\<lparr>pending := eof\<rparr>) = fd_times example_file"
proof -
  have run: "readFile forensic_flags example_platform ''/usr/lib/mod.so'' 0 4096 False True
       append_content False []
     = Inr (Status 0 ''OK'', ''ELF!'', Some (example_file\<lparr>pending := eof\<rparr>))"
    by (simp add: readFile_def OpenReadableFile_def example_platform_def example_file_def
      determined_size_def read_limit_def forensic_flags_def default_flags_def ok_def
      platform_read_def filled_def append_content_def Let_def)
  have good: "ok (Status 0 ''OK'')"
    by (simp add: ok_def)
  have enabled: "\<not> FLAGS_disable_forensic forensic_flags"
    by (simp add: forensic_flags_def default_flags_def)
  have disturbed: "touch example_file (fd_times example_file) \<noteq> fd_times example_file"
    by (simp add: example_file_def)
  from readFile_preserves_times [OF run good TrueI enabled]
  have "fd_times (example_file\<lparr>pending := eof\<rparr>) = fd_times example_file"
    by (simp add: example_file_opened)
  with run good enabled disturbed show ?thesis by simp
qed

section \<open>Further properties\<close>

text \<open>
  The first testable property of the spec: translating a pattern is translating the
  pattern with \<open>*\<close> for every \<open>%\<close>, in which no \<open>%\<close> is left.
\<close>

theorem replaceGlobWildcards_percent:
  "replaceGlobWildcards env pattern limits
     = replaceGlobWildcards env (replace_all pattern CHR ''%'' CHR ''*'') limits \<and>
   CHR ''%'' \<notin> set (replace_all pattern CHR ''%'' CHR ''*'')"
proof -
  have "replace_all (replace_all pattern CHR ''%'' CHR ''*'') CHR ''%'' CHR ''*''
      = replace_all pattern CHR ''%'' CHR ''*''"
    by (intro replace_all_absent replace_all_removes) simp
  then show ?thesis
    by (simp add: replaceGlobWildcards_def percent_replaced replace_all_removes)
qed

theorem replaceGlobWildcards_percent_witness:
  "replaceGlobWildcards example_platform ''/usr/lib/%'' GLOB_ALL
     = replaceGlobWildcards example_platform ''/usr/lib/*'' GLOB_ALL"
  using replaceGlobWildcards_percent [of example_platform "''/usr/lib/%''" GLOB_ALL]
  by (simp add: replace_all_def)

text \<open>\<^verbatim>\<open>s.rfind("**")\<close> of a string that ends with the recursive marker.\<close>

lemma rfind_suffix: "rfind (p @ ''**'') ''**'' = length p"
proof -
  define found where
    "found = filter (\<lambda>i. take (length ''**'') (drop i (p @ ''**'')) = ''**'') [0..<length p]"
  have "[0..<length (p @ ''**'') + 1 - length ''**''] = [0..<length p] @ [length p]"
    by simp
  then have "filter (\<lambda>i. take (length ''**'') (drop i (p @ ''**'')) = ''**'')
               [0..<length (p @ ''**'') + 1 - length ''**''] = found @ [length p]"
    by (simp add: found_def)
  then have "rfind (p @ ''**'') ''**'' =
      (case found @ [length p] of [] \<Rightarrow> npos | i # is \<Rightarrow> last (i # is))"
    by (simp only: rfind_def)
  also have "\<dots> = last (found @ [length p])"
    by (cases "found @ [length p]") simp_all
  finally show ?thesis by simp
qed

lemma recursive_marker_continues:
  assumes "p \<noteq> []"
  shows "\<not> (rfind (p @ ''**'') ''**'' > length (p @ ''**'') \<or>
            rfind (p @ ''**'') ''**'' < size_t_sub (length (p @ ''**'')) 3)"
proof -
  from assms have pos: "0 < length p" by simp
  have "(length p + 2 + 2 ^ 64 - 3) mod 2 ^ 64 = (length p - 1) mod (2 ^ 64 :: nat)"
  proof -
    from pos have "length p + 2 + 2 ^ 64 - 3 = (length p - 1) + 2 ^ 64" by simp
    then show ?thesis by (metis mod_add_self2)
  qed
  also have "\<dots> \<le> length p - 1" by simp
  finally have "size_t_sub (length (p @ ''**'')) 3 \<le> length p - 1"
    by (simp add: size_t_sub_def)
  with pos show ?thesis by (simp add: rfind_suffix)
qed

text \<open>
  The bound of the expansion loop is reached, and it is 63: where every expansion has a
  match, a pattern that ends with \<open>**\<close> after a non-empty prefix is expanded once for each
  value of \<open>glob_index\<close> from the next one to 63. On the directory that links to itself
  the loop stops there and \<open>resolveFilePattern\<close> returns \<^verbatim>\<open>Status(0, "OK")\<close>.
\<close>

theorem genGlobs_loop_every_level:
  assumes "\<forall>q. platformGlob env q \<noteq> []" and "p \<noteq> []" and "glob_index + k = 63"
  shows "length (snd (genGlobs_loop env glob_index (p @ ''**'') results expanded))
           = length expanded + k"
  using assms(2,3)
proof (induction k arbitrary: glob_index p results expanded)
  case 0
  then show ?case
    by (subst genGlobs_loop.simps) (simp add: kMaxRecursiveGlobs_def)
next
  case (Suc k)
  from Suc.prems have inside: "glob_index + 1 < kMaxRecursiveGlobs"
    by (simp add: kMaxRecursiveGlobs_def)
  have continues: "\<not> (length (platformGlob env (p @ ''**'')) = 0 \<or>
      rfind (p @ ''**'') ''**'' > length (p @ ''**'') \<or>
      rfind (p @ ''**'') ''**'' < size_t_sub (length (p @ ''**'')) 3)"
    using recursive_marker_continues [OF Suc.prems(1)] assms(1) by simp
  have "genGlobs_loop env glob_index (p @ ''**'') results expanded =
        genGlobs_loop env (glob_index + 1) ((p @ ''**/'') @ ''**'')
          (results @ platformGlob env (p @ ''**'')) (expanded @ [p @ ''**''])"
    using inside continues by (subst genGlobs_loop.simps) simp
  moreover have "length (snd (genGlobs_loop env (glob_index + 1) ((p @ ''**/'') @ ''**'')
          (results @ platformGlob env (p @ ''**'')) (expanded @ [p @ ''**''])))
        = length (expanded @ [p @ ''**'']) + k"
    using Suc.prems by (intro Suc.IH) simp_all
  ultimately show ?case by simp
qed

theorem genGlobs_bound_reached:
  "replaceGlobWildcards cyclic_platform ''/a/**'' GLOB_ALL = ''/a/**'' \<and>
   length (snd (genGlobs_loop cyclic_platform 0 ''/a/**'' [] [])) = 63 \<and>
   (\<exists>matches. resolveFilePattern cyclic_platform ''/a/**'' [] GLOB_ALL
      = Inr (Status 0 ''OK'', matches))"
proof -
  have every: "\<forall>q. platformGlob cyclic_platform q \<noteq> []"
    by (simp add: cyclic_platform_def)
  have "length (snd (genGlobs_loop cyclic_platform 0 (''/a/'' @ ''**'') [] []))
      = length ([] :: string list) + 63"
    using genGlobs_loop_every_level [OF every, of "''/a/''" 0 63 "[]" "[]"] by simp
  moreover have "replaceGlobWildcards cyclic_platform ''/a/**'' GLOB_ALL = ''/a/**''"
    by (simp add: replaceGlobWildcards_def relative_pattern_def char_at_def make_preferred_def
        pattern_base_def Let_def example_platform_def cyclic_platform_def GLOB_ALL_def)
  moreover have "\<exists>matches. genGlobs cyclic_platform ''/a/**'' [] GLOB_ALL = Inr matches"
    by (rule genGlobs_nonempty) (simp_all add: cyclic_platform_def)
  ultimately show ?thesis by (auto simp: resolveFilePattern_def)
qed

text \<open>
  A dry run of a file within the ceiling reads nothing and delivers nothing: the status
  is 0 with the canonical path as its message (the ninth testable property of the spec).
\<close>

theorem readFile_dry_run:
  assumes "OpenReadableFile env path blocking = Some fd" and "isValid fd"
    and "determined_size fd size_arg \<le> read_limit flags fd"
  shows "readFile flags env path size_arg block_size True preserve_time predicate blocking sink
           = Inr (Status 0 (canonical env path), sink, Some fd)"
  using assms by (simp add: readFile_def Let_def)

theorem readFile_dry_run_witness:
  "readFile default_flags example_platform ''/usr/lib/mod.so'' 0 4096 True False
       append_content False []
     = Inr (Status 0 ''/usr/lib/mod.so'', [], Some example_file)"
proof -
  have valid: "isValid example_file"
    by (simp add: example_file_def)
  have within: "determined_size example_file 0 \<le> read_limit default_flags example_file"
    by (simp add: determined_size_def read_limit_def default_flags_def example_file_def ok_def)
  show ?thesis
    using readFile_dry_run [OF example_file_opened valid within, of 4096 False append_content "[]"]
    by (simp add: example_platform_def)
qed

text \<open>
  When the privilege drop is refused or the handle is not valid, the call fails with
  \<^verbatim>\<open>Status(1, "Cannot open file for reading: " + path)\<close> and delivers nothing.
\<close>

theorem readFile_cannot_open:
  assumes "\<not> dropToParent env path \<or> \<not> isValid (openPlatformFile env path (\<not> blocking))"
  shows "\<exists>handle. readFile flags env path size_arg block_size dry_run preserve_time predicate
           blocking sink
           = Inr (Status 1 (''Cannot open file for reading: '' @ path), sink, handle)"
  using assms by (auto simp: readFile_def OpenReadableFile_def)

theorem readFile_cannot_open_witness:
  "\<exists>handle. readFile default_flags (example_platform\<lparr>dropToParent := (\<lambda>p. False)\<rparr>)
      ''/usr/lib/mod.so'' 0 4096 False False append_content False []
     = Inr (Status 1 ''Cannot open file for reading: /usr/lib/mod.so'', [], handle)"
  using readFile_cannot_open [of "example_platform\<lparr>dropToParent := (\<lambda>p. False)\<rparr>"
      "''/usr/lib/mod.so''" False default_flags 0 4096 False False append_content "[]"]
  by simp

text \<open>
  The six-argument \<^verbatim>\<open>readFile\<close> on a streamed source: when the chunks the reads return
  stay under the ceiling and the next read returns nothing (the end of the source) or
  fails, the call succeeds and \<open>content\<close> has grown by the bytes of the chunks, in order.
  A failing read ends the loop as the end of the source does.
\<close>

lemma eof_unfold: "eof = Avail [] ## eof"
  unfolding eof_def by (subst siterate.ctr) simp

lemma deliver_append_content:
  "length c \<le> 4096 \<Longrightarrow> deliver append_content content c = content @ c"
  by (auto simp: deliver_def append_content_def filled_def)

lemma foldl_deliver_append_content:
  "\<forall>c\<in>set cs. length c \<le> 4096 \<Longrightarrow>
     foldl (deliver append_content) content cs = content @ concat cs"
  by (induction cs arbitrary: content) (simp_all add: deliver_append_content)

lemma platform_read_end:
  assumes "pending fd = e ## rest" and "e = Fail \<or> e = Avail []"
  shows "\<exists>part_bytes bytes fd'. platform_read fd nbyte = (part_bytes, bytes, fd') \<and> part_bytes \<le> 0"
  using assms by (auto simp: platform_read_def Let_def)

lemma read_loop_all:
  assumes "pending fd = map Avail cs @- (e ## rest)" and "e = Fail \<or> e = Avail []"
    and "\<forall>c\<in>set cs. 0 < length c \<and> length c \<le> block_size \<and> length c \<le> 4096"
    and "running + int (sum_list (map length cs)) < read_max" and "read_max \<le> off_t_max"
  shows "\<exists>fd'. read_loop block_size read_max predicate running fd sink =
           Inr (False, fd', foldl (deliver predicate) sink cs)"
  using assms(1,3,4)
proof (induction cs arbitrary: running fd sink)
  case Nil
  then have "pending fd = e ## rest" by simp
  from platform_read_end [OF this assms(2), of block_size]
  show ?case by (subst read_loop.simps) auto
next
  case (Cons c cs)
  let ?fd1 = "fd\<lparr>fd_times := touch fd (fd_times fd), pending := map Avail cs @- (e ## rest)\<rparr>"
  from Cons.prems(1,2) have rd:
    "platform_read fd block_size = (int (length c), c, ?fd1)"
    by (intro platform_read_avail) simp_all
  from Cons.prems(2) have len: "0 < length c" "length c \<le> 4096" by simp_all
  from Cons.prems(3) have under: "running + int (length c) < read_max" by simp
  with assms(5) have fits: "running + int (length c) \<le> off_t_max" by simp
  have step: "read_loop block_size read_max predicate running fd sink =
        read_loop block_size read_max predicate (running + int (length c)) ?fd1
          (deliver predicate sink c)"
    using rd len fits under by (subst read_loop.simps) (simp add: deliver_def)
  have "\<exists>fd'. read_loop block_size read_max predicate (running + int (length c)) ?fd1
          (deliver predicate sink c) =
        Inr (False, fd', foldl (deliver predicate) (deliver predicate sink c) cs)"
    using Cons.prems by (intro Cons.IH) (auto simp: add.assoc)
  with step show ?case by simp
qed

theorem readFile_content_streamed:
  assumes "OpenReadableFile env path blocking = Some fd" and "isValid fd"
    and "determined_size fd size_arg = 0"
    and "pending fd = map Avail cs @- (e ## rest)" and "e = Fail \<or> e = Avail []"
    and "\<forall>c\<in>set cs. 0 < length c \<and> length c \<le> 4096"
    and "int (sum_list (map length cs)) < read_limit flags fd"
  shows "\<exists>fd'. readFile_content flags env path content size_arg False preserve_time blocking
           = Inr (Status 0 ''OK'', content @ concat cs, Some fd')"
proof -
  have "read_limit flags fd \<le> off_t_max"
    by (simp add: read_limit_def sint_le_off_t_max)
  with assms(4-7) obtain fd' where
    "read_loop (unat (4096 :: 64 word)) (read_limit flags fd) append_content 0 fd content
       = Inr (False, fd', foldl (deliver append_content) content cs)"
    using read_loop_all [of fd cs e rest "unat (4096 :: 64 word)" 0 "read_limit flags fd"
        append_content content]
    by auto
  moreover have "foldl (deliver append_content) content cs = content @ concat cs"
    using assms(6) by (intro foldl_deliver_append_content) simp
  moreover from assms(7) have "\<not> read_limit flags fd < 0" by simp
  ultimately show ?thesis
    using assms(1-3) by (simp add: readFile_content_def readFile_def Let_def)
qed

theorem readFile_content_streamed_witness:
  "\<exists>fd'. readFile_content default_flags pipe_platform ''/run/pipe'' ''seen: '' 0 False False False
     = Inr (Status 0 ''OK'', ''seen: ELF!'', Some fd')"
proof -
  have valid: "isValid example_pipe"
    by (simp add: example_pipe_def example_file_def)
  have size0: "determined_size example_pipe 0 = 0"
    by (simp add: determined_size_def example_pipe_def example_file_def)
  have source: "pending example_pipe = map Avail [''EL'', ''F!''] @- (Avail [] ## eof)"
    using eof_unfold by (simp add: example_pipe_def)
  have chunks: "\<forall>c\<in>set [''EL'', ''F!'']. 0 < length c \<and> length c \<le> 4096"
    by simp
  have under: "int (sum_list (map length [''EL'', ''F!''])) < read_limit default_flags example_pipe"
    by (simp add: read_limit_def default_flags_def example_pipe_def example_file_def ok_def)
  show ?thesis
    using readFile_content_streamed [OF example_pipe_opened valid size0 source _ chunks under,
        of "''seen: ''" False]
    by simp
qed

text \<open>
  The verdict of \<open>safePermissions\<close> in one formula (the seventh and eighth testable
  properties of the spec): the path is accessible and, unless unsafe permissions are
  allowed, the directory is not a temporary one, the file opens, it is not a directory,
  it belongs to the current user or to root, and, when executability is required,
  \<^verbatim>\<open>isExecutable\<close> has no positive code and \<^verbatim>\<open>isNonWritable\<close> holds.
\<close>

theorem safePermissions_iff:
  "safePermissions flags env dir path executable \<longleftrightarrow>
     ok (platformIsFileAccessible env path) \<and>
     (FLAGS_allow_unsafe flags \<or>
      (getCode (platformIsTmpDir env dir) > 0 \<and>
       isValid (openPlatformFile env path False) \<and>
       getCode (isDirectory env path) > 0 \<and>
       (ok (isOwnerCurrentUser (openPlatformFile env path False)) \<or>
        ok (isOwnerRoot (openPlatformFile env path False))) \<and>
       (executable \<longrightarrow>
          getCode (isExecutable (openPlatformFile env path False)) \<le> 0 \<and>
          ok (isNonWritable (openPlatformFile env path False)))))"
  by (auto simp: safePermissions_def Let_def ok_def)

theorem safePermissions_iff_witness:
  "safePermissions default_flags example_platform ''/usr/lib'' ''/usr/lib/mod.so'' True \<and>
   \<not> safePermissions default_flags
       (example_platform\<lparr>platformIsTmpDir := (\<lambda>p. Status 0 ''OK'')\<rparr>)
       ''/tmp'' ''/usr/lib/mod.so'' True"
  using safePermissions_iff [of default_flags example_platform "''/usr/lib''" "''/usr/lib/mod.so''" True]
    safePermissions_iff [of default_flags "example_platform\<lparr>platformIsTmpDir := (\<lambda>p. Status 0 ''OK'')\<rparr>"
      "''/tmp''" "''/usr/lib/mod.so''" True]
  by (simp add: default_flags_def example_platform_def example_file_def isDirectory_def ok_def)

text \<open>
  What the sink has received when the streaming path fails: the chunks that kept the
  running total under the ceiling, each delivered once and in order, and no chunk after
  them. The chunk that takes the total to the ceiling or beyond is read and dropped.
\<close>

lemma under_ceiling_negative: "limit \<le> running \<Longrightarrow> under_ceiling limit running cs = []"
  by (cases cs) simp_all

theorem readFile_stream_delivers_under_ceiling:
  assumes "OpenReadableFile env path blocking = Some fd" and "isValid fd"
    and "determined_size fd size_arg = 0"
    and "pending fd = map Avail cs @- rest" and "cs \<noteq> []"
    and "\<forall>c\<in>set cs. 0 < length c \<and> length c \<le> unat block_size \<and> length c \<le> 4096"
    and "read_limit flags fd \<le> int (sum_list (map length cs))"
    and "read_limit flags fd + 4096 \<le> off_t_max"
  shows "\<exists>fd'.
           readFile flags env path size_arg block_size False preserve_time predicate blocking sink
             = Inr (Status 1 ''File exceeds read limits'',
                    foldl (deliver predicate) sink (under_ceiling (read_limit flags fd) 0 cs),
                    Some fd')"
proof (cases "read_limit flags fd < 0")
  case True
  then have "under_ceiling (read_limit flags fd) 0 cs = []"
    by (intro under_ceiling_negative) simp
  with True assms(1-3) show ?thesis
    by (simp add: readFile_def Let_def)
next
  case False
  with assms(4-8) obtain fd' where
    "read_loop (unat block_size) (read_limit flags fd) predicate 0 fd sink
       = Inr (True, fd', foldl (deliver predicate) sink (under_ceiling (read_limit flags fd) 0 cs))"
    using read_loop_limit [of fd cs rest "unat block_size" 0 "read_limit flags fd" predicate sink]
    by auto
  with assms(1-3) False show ?thesis
    by (simp add: readFile_def Let_def)
qed

theorem readFile_stream_delivers_under_ceiling_witness:
  "\<exists>fd'. readFile (default_flags\<lparr>FLAGS_read_max := 3\<rparr>) pipe_platform ''/run/pipe'' 0 4096 False
       False append_content False ''seen: ''
     = Inr (Status 1 ''File exceeds read limits'', ''seen: EL'', Some fd')"
proof -
  have valid: "isValid example_pipe"
    by (simp add: example_pipe_def example_file_def)
  have size0: "determined_size example_pipe 0 = 0"
    by (simp add: determined_size_def example_pipe_def example_file_def)
  have source: "pending example_pipe = map Avail [''EL'', ''F!''] @- eof"
    by (simp add: example_pipe_def)
  have chunks: "\<forall>c\<in>set [''EL'', ''F!'']. 0 < length c \<and> length c \<le> unat (4096 :: 64 word) \<and> length c \<le> 4096"
    by simp
  have limit: "read_limit (default_flags\<lparr>FLAGS_read_max := 3\<rparr>) example_pipe = 3"
    by (simp add: read_limit_def default_flags_def example_pipe_def example_file_def ok_def)
  have reached: "read_limit (default_flags\<lparr>FLAGS_read_max := 3\<rparr>) example_pipe
      \<le> int (sum_list (map length [''EL'', ''F!'']))"
    by (simp add: limit)
  have range: "read_limit (default_flags\<lparr>FLAGS_read_max := 3\<rparr>) example_pipe + 4096 \<le> off_t_max"
    by (simp add: limit off_t_max_def)
  show ?thesis
    using readFile_stream_delivers_under_ceiling [OF example_pipe_opened valid size0 source _ chunks
        reached range, of False append_content "''seen: ''"]
    by (simp add: limit deliver_def append_content_def filled_def)
qed

text \<open>
  Line 160 beyond the largest string: when the determined size is not zero, within the
  ceiling, and negative or above \<open>string_max_size\<close>, the constructor throws and nothing is
  read or delivered. With a ceiling of \<open>2 ^ 63 - 1\<close> and a size hint of \<open>2 ^ 63 - 1\<close> for
  the pipe, the call ends so.
\<close>

theorem readFile_string_too_long:
  assumes "OpenReadableFile env path blocking = Some fd" and "isValid fd"
    and "determined_size fd size_arg = n" and "n \<noteq> 0" and "n \<le> read_limit flags fd"
    and "n < 0 \<or> string_max_size env < nat n"
  shows "readFile flags env path size_arg block_size False preserve_time predicate blocking sink
           = Inl LengthError"
  using assms by (auto simp: readFile_def Let_def)

theorem readFile_string_too_long_witness:
  "determined_size example_pipe 9223372036854775807 = 2 ^ 63 - 1 \<and>
   read_limit (default_flags\<lparr>FLAGS_read_max := 9223372036854775807\<rparr>) example_pipe = 2 ^ 63 - 1 \<and>
   readFile (default_flags\<lparr>FLAGS_read_max := 9223372036854775807\<rparr>) pipe_platform ''/run/pipe''
       9223372036854775807 4096 False False append_content False []
     = Inl LengthError"
proof -
  have valid: "isValid example_pipe"
    by (simp add: example_pipe_def example_file_def)
  have hint: "determined_size example_pipe 9223372036854775807 = 2 ^ 63 - 1"
    by (simp add: determined_size_def example_pipe_def example_file_def)
  have limit: "read_limit (default_flags\<lparr>FLAGS_read_max := 9223372036854775807\<rparr>) example_pipe
      = 2 ^ 63 - 1"
    by (simp add: read_limit_def default_flags_def example_pipe_def example_file_def ok_def)
  have long: "(2 ^ 63 - 1 :: int) < 0 \<or> string_max_size pipe_platform < nat (2 ^ 63 - 1)"
    by (simp add: pipe_platform_def example_platform_def)
  show ?thesis
    using readFile_string_too_long [OF example_pipe_opened valid hint _ _ long,
        of "default_flags\<lparr>FLAGS_read_max := 9223372036854775807\<rparr>" 4096 False append_content "[]"]
      hint limit
    by simp
qed

text \<open>
  Idempotence where the translation changes the pattern: when \<^verbatim>\<open>fs::canonical\<close> returns
  another path \<open>c\<close> for the base of an absolute pattern, and \<open>c\<close> is absolute, holds no
  wildcard and is itself in canonical form (with its separator if it is a directory), the
  translation puts \<open>c\<close> in the place of the base, and translating that again changes
  nothing.
\<close>

lemma takeWhile_dropWhile_empty: "takeWhile P (dropWhile P xs) = []"
  by (induction xs) simp_all

lemma pattern_base_append:
  assumes "CHR ''*'' \<notin> set c"
  shows "pattern_base (c @ drop (length (pattern_base p)) p) = c"
proof -
  have "drop (length (takeWhile (\<lambda>x. x \<noteq> CHR ''*'') p)) p = dropWhile (\<lambda>x. x \<noteq> CHR ''*'') p"
    by (rule dropWhile_eq_drop [symmetric])
  then have "pattern_base (c @ drop (length (pattern_base p)) p)
      = takeWhile (\<lambda>x. x \<noteq> CHR ''*'') (c @ dropWhile (\<lambda>x. x \<noteq> CHR ''*'') p)"
    by (simp only: pattern_base_def make_preferred_def)
  also have "\<dots> = c @ takeWhile (\<lambda>x. x \<noteq> CHR ''*'') (dropWhile (\<lambda>x. x \<noteq> CHR ''*'') p)"
    using assms by (intro takeWhile_append2) auto
  finally show ?thesis by (simp only: takeWhile_dropWhile_empty append_Nil2)
qed

theorem replaceGlobWildcards_idempotent_changed:
  assumes "pattern \<noteq> []" and "hd pattern = CHR ''/''" and "\<not> GLOB_NO_CANON limits"
    and "c = canonical env (pattern_base (replace_all pattern CHR ''%'' CHR ''*''))"
    and "c \<noteq> []" and "c \<noteq> pattern_base (replace_all pattern CHR ''%'' CHR ''*'')"
    and "hd c = CHR ''/''" and "CHR ''*'' \<notin> set c" and "CHR ''%'' \<notin> set c"
    and "canonical_base env (if ok (isDirectory env c) then c @ ''/'' else c)"
  shows "replaceGlobWildcards env pattern limits
           = (if ok (isDirectory env c) then c @ ''/'' else c) @
             drop (length (pattern_base (replace_all pattern CHR ''%'' CHR ''*'')))
               (replace_all pattern CHR ''%'' CHR ''*'') \<and>
         replaceGlobWildcards env (replaceGlobWildcards env pattern limits) limits
           = replaceGlobWildcards env pattern limits"
proof -
  let ?p = "replace_all pattern CHR ''%'' CHR ''*''"
  let ?c = "if ok (isDirectory env c) then c @ ''/'' else c"
  let ?q = "?c @ drop (length (pattern_base ?p)) ?p"
  have "char_at ?p 0 = CHR ''/''"
    using assms(1,2) by (cases pattern) (simp_all add: char_at_def replace_all_def)
  then have absolute: "\<not> relative_pattern ?p"
    using assms(1) by (simp add: relative_pattern_def replace_all_def)
  have "pattern_base ?p \<noteq> []"
    using assms(1,2) by (cases pattern) (simp_all add: pattern_base_def make_preferred_def replace_all_def)
  then have once: "replaceGlobWildcards env pattern limits = ?q"
    using assms(3,5,6) absolute unfolding assms(4)
    by (simp add: replaceGlobWildcards_def percent_replaced make_preferred_def Let_def)
  have "CHR ''%'' \<notin> set ?p"
    by (rule replace_all_removes) simp
  then have "CHR ''%'' \<notin> set (drop (length (pattern_base ?p)) ?p)"
    by (meson in_set_dropD)
  with assms(9) have "CHR ''%'' \<notin> set ?q" by auto
  then have fixed: "replace_all ?q CHR ''%'' CHR ''*'' = ?q"
    by (rule replace_all_absent)
  have "char_at ?q 0 = CHR ''/''"
    using assms(5,7) by (cases c) (simp_all add: char_at_def)
  then have absolute': "\<not> relative_pattern ?q"
    using assms(5) by (simp add: relative_pattern_def)
  have base: "pattern_base ?q = ?c"
    using assms(8) by (intro pattern_base_append) simp
  have "replaceGlobWildcards env ?q limits = replace_all ?q CHR ''%'' CHR ''*''"
  proof (rule replaceGlobWildcards_canonical_base)
    show "\<not> relative_pattern (replace_all ?q CHR ''%'' CHR ''*'')"
      unfolding fixed by (fact absolute')
    show "GLOB_NO_CANON limits \<or>
         canonical env (pattern_base (replace_all ?q CHR ''%'' CHR ''*'')) = [] \<or>
         canonical_base env (pattern_base (replace_all ?q CHR ''%'' CHR ''*''))"
      unfolding fixed base using assms(10) by blast
  qed
  then have twice: "replaceGlobWildcards env ?q limits = ?q"
    unfolding fixed .
  have again: "replaceGlobWildcards env (replaceGlobWildcards env pattern limits) limits
      = replaceGlobWildcards env pattern limits"
    unfolding once by (fact twice)
  from once again show ?thesis by (rule conjI)
qed

theorem replaceGlobWildcards_idempotent_changed_witness:
  "replaceGlobWildcards linked_platform ''/home/u/link/%'' GLOB_ALL = ''/data/*'' \<and>
   replaceGlobWildcards linked_platform ''/data/*'' GLOB_ALL = ''/data/*''"
proof -
  have base: "pattern_base (replace_all ''/home/u/link/%'' CHR ''%'' CHR ''*'') = ''/home/u/link/''"
    by (simp add: pattern_base_def make_preferred_def replace_all_def)
  have canon: "''/data'' = canonical linked_platform
      (pattern_base (replace_all ''/home/u/link/%'' CHR ''%'' CHR ''*''))"
    unfolding base by (simp add: linked_platform_def)
  have changed: "''/data'' \<noteq> pattern_base (replace_all ''/home/u/link/%'' CHR ''%'' CHR ''*'')"
    unfolding base by simp
  have form: "canonical_base linked_platform
      (if ok (isDirectory linked_platform ''/data'') then ''/data'' @ ''/'' else ''/data'')"
    by (simp add: canonical_base_def linked_platform_def isDirectory_def ok_def)
  have canon_on: "\<not> GLOB_NO_CANON GLOB_ALL"
    by (simp add: GLOB_ALL_def)
  have first: "replaceGlobWildcards linked_platform ''/home/u/link/%'' GLOB_ALL = ''/data/*''"
    by (simp add: replaceGlobWildcards_def relative_pattern_def char_at_def make_preferred_def
        pattern_base_def Let_def linked_platform_def example_platform_def replace_all_def
        GLOB_ALL_def isDirectory_def ok_def)
  have "replaceGlobWildcards linked_platform
      (replaceGlobWildcards linked_platform ''/home/u/link/%'' GLOB_ALL) GLOB_ALL
      = replaceGlobWildcards linked_platform ''/home/u/link/%'' GLOB_ALL"
    by (rule replaceGlobWildcards_idempotent_changed
        [where c = "''/data''", OF _ _ canon_on canon _ changed _ _ _ form, THEN conjunct2])
      simp_all
  then have "replaceGlobWildcards linked_platform ''/data/*'' GLOB_ALL = ''/data/*''"
    unfolding first .
  with first show ?thesis by (rule conjI)
qed

end
